theory Spec2Isabelle
  imports Main "HOL-Library.Word"
begin

unbundle bit_operations_syntax

section \<open>util/algorithm.hpp: min\_element and max\_element\<close>

text \<open>
  A range \<open>[curr, last)\<close> of forward iterators is modelled by the list \<open>xs\<close> of the
  elements it runs over; an iterator is the index of its element, and \<open>last\<close> is
  \<open>length xs\<close>. The loops only ever advance the iterator \<open>curr\<close> (written \<open>cur\<close> and
  \<open>cmp\<close> for \<open>comp\<close> below) towards \<open>last\<close>, so the test \<open>curr != last\<close> is
  \<open>cur < length xs\<close>.
\<close>

function min_element_loop :: "'a::ord list \<Rightarrow> nat \<Rightarrow> nat \<Rightarrow> nat" where
  "min_element_loop xs smallest cur =
     (if cur < length xs
      then min_element_loop xs (if xs ! cur < xs ! smallest then cur else smallest) (Suc cur)
      else smallest)"
  by pat_completeness auto
termination
  by (relation "measure (\<lambda>(xs, smallest, cur). length xs - cur)") auto

declare min_element_loop.simps [simp del]

definition min_element :: "'a::ord list \<Rightarrow> nat" where
  "min_element xs = (if 0 = length xs then length xs else min_element_loop xs 0 (Suc 0))"

function min_element_comp_loop :: "('a \<Rightarrow> 'a \<Rightarrow> bool) \<Rightarrow> 'a list \<Rightarrow> nat \<Rightarrow> nat \<Rightarrow> nat" where
  "min_element_comp_loop cmp xs smallest cur =
     (if cur < length xs
      then min_element_comp_loop cmp xs
             (if cmp (xs ! cur) (xs ! smallest) then cur else smallest) (Suc cur)
      else smallest)"
  by pat_completeness auto
termination
  by (relation "measure (\<lambda>(cmp, xs, smallest, cur). length xs - cur)") auto

declare min_element_comp_loop.simps [simp del]

definition min_element_comp :: "'a list \<Rightarrow> ('a \<Rightarrow> 'a \<Rightarrow> bool) \<Rightarrow> nat" where
  "min_element_comp xs cmp =
     (if 0 = length xs then length xs else min_element_comp_loop cmp xs 0 (Suc 0))"

function max_element_loop :: "'a::ord list \<Rightarrow> nat \<Rightarrow> nat \<Rightarrow> nat" where
  "max_element_loop xs largest cur =
     (if cur < length xs
      then max_element_loop xs (if xs ! largest < xs ! cur then cur else largest) (Suc cur)
      else largest)"
  by pat_completeness auto
termination
  by (relation "measure (\<lambda>(xs, largest, cur). length xs - cur)") auto

declare max_element_loop.simps [simp del]

definition max_element :: "'a::ord list \<Rightarrow> nat" where
  "max_element xs = (if 0 = length xs then length xs else max_element_loop xs 0 (Suc 0))"

function max_element_comp_loop :: "('a \<Rightarrow> 'a \<Rightarrow> bool) \<Rightarrow> 'a list \<Rightarrow> nat \<Rightarrow> nat \<Rightarrow> nat" where
  "max_element_comp_loop cmp xs largest cur =
     (if cur < length xs
      then max_element_comp_loop cmp xs
             (if cmp (xs ! largest) (xs ! cur) then cur else largest) (Suc cur)
      else largest)"
  by pat_completeness auto
termination
  by (relation "measure (\<lambda>(cmp, xs, largest, cur). length xs - cur)") auto

declare max_element_comp_loop.simps [simp del]

definition max_element_comp :: "'a list \<Rightarrow> ('a \<Rightarrow> 'a \<Rightarrow> bool) \<Rightarrow> nat" where
  "max_element_comp xs cmp =
     (if 0 = length xs then length xs else max_element_comp_loop cmp xs 0 (Suc 0))"

text \<open>
  The requirement the C++ standard puts on a comparison: a strict weak ordering is
  irreflexive and transitive, and so is its incomparability ("neither is less").
\<close>

definition strict_weak_order :: "('a \<Rightarrow> 'a \<Rightarrow> bool) \<Rightarrow> bool" where
  "strict_weak_order cmp \<longleftrightarrow>
     (\<forall>a. \<not> cmp a a) \<and>
     (\<forall>a b c. cmp a b \<and> cmp b c \<longrightarrow> cmp a c) \<and>
     (\<forall>a b c. \<not> cmp a b \<and> \<not> cmp b a \<and> \<not> cmp b c \<and> \<not> cmp c b
        \<longrightarrow> \<not> cmp a c \<and> \<not> cmp c a)"

text \<open>
  \<open>first_min cmp xs n i\<close>: among the first \<open>n\<close> elements of \<open>xs\<close>, index \<open>i\<close> is the
  earliest one that no element is below; \<open>first_max\<close> is the same for "above".
\<close>

definition first_min :: "('a \<Rightarrow> 'a \<Rightarrow> bool) \<Rightarrow> 'a list \<Rightarrow> nat \<Rightarrow> nat \<Rightarrow> bool" where
  "first_min cmp xs n i \<longleftrightarrow>
     i < n \<and> (\<forall>j<n. \<not> cmp (xs ! j) (xs ! i)) \<and> (\<forall>k<i. \<exists>j<n. cmp (xs ! j) (xs ! k))"

definition first_max :: "('a \<Rightarrow> 'a \<Rightarrow> bool) \<Rightarrow> 'a list \<Rightarrow> nat \<Rightarrow> nat \<Rightarrow> bool" where
  "first_max cmp xs n i \<longleftrightarrow>
     i < n \<and> (\<forall>j<n. \<not> cmp (xs ! i) (xs ! j)) \<and> (\<forall>k<i. \<exists>j<n. cmp (xs ! k) (xs ! j))"


section \<open>builder/builder.cpp: the manifest and the insertion driver\<close>

text \<open>
  Modelled from the spec: \<open>types/metadata.hpp\<close> and \<open>types/source.hpp\<close> are not among the
  sources. The records below carry the fields the code reads and writes (the metadata
  with its internal node sizes, and the manifest of build items of the specification). \<open>Bounds\<close>, \<open>Subset\<close> and the
  source schema stay abstract (type variables \<open>'b\<close>, \<open>'sub\<close>, \<open>'sch\<close>); the functions on them
  that the code calls (\<open>Bounds::overlaps\<close>, \<open>intersection\<close>, \<open>getBounds\<close>) are parameters.
\<close>

record Internal =
  minNodeSize :: "64 word"
  maxNodeSize :: "64 word"

record ('b, 'sub) Metadata =
  span :: "64 word"
  dataType :: string
  internal :: Internal
  subset :: "'sub option"
  bounds :: 'b
  boundsConforming :: 'b

record ('b, 'sch) SourceInfo =
  errors :: "string list"
  points :: "64 word"
  info_bounds :: 'b
  schema :: 'sch

record ('b, 'sch) Source =
  path :: string
  info :: "('b, 'sch) SourceInfo"

record ('b, 'sch) BuildItem =
  source :: "('b, 'sch) Source"
  inserted :: bool

type_synonym ('b, 'sch) Manifest = "('b, 'sch) BuildItem list"

text \<open>
  What the wrapped \<open>Builder::insert\<close> threw, if anything: an exception derived from
  \<open>std::exception\<close>, with its \<open>what()\<close>, or any other object.
\<close>

datatype thrown = StdException string | OtherException

datatype builder_error = ManifestOutOfRange

text \<open>
  \<open>Builder::insert\<close> reads the source through the external reader pipeline and feeds the
  chunk cache. On the manifest its only effect is on the schema of its own item (the
  statistics it harvests at the end). It is the parameter \<open>insert_effect\<close>: for an origin and
  its item, what the call threw and the schema it left behind.
\<close>

definition push_error :: "string \<Rightarrow> ('b, 'sch) BuildItem \<Rightarrow> ('b, 'sch) BuildItem" where
  "push_error msg item =
     item\<lparr>source := (source item)\<lparr>info := (info (source item))
       \<lparr>errors := errors (info (source item)) @ [msg]\<rparr>\<rparr>\<rparr>"

definition set_schema :: "'sch \<Rightarrow> ('b, 'sch) BuildItem \<Rightarrow> ('b, 'sch) BuildItem" where
  "set_schema sch item =
     item\<lparr>source := (source item)\<lparr>info := (info (source item))\<lparr>schema := sch\<rparr>\<rparr>\<rparr>"

text \<open>
  \<open>manifest.at(originId)\<close> is outside the \<open>try\<close> block: an origin beyond the manifest throws
  \<open>std::out_of_range\<close> out of \<open>tryInsert\<close> before \<open>insert\<close> is called.
\<close>

definition tryInsert ::
  "(nat \<Rightarrow> ('b, 'sch) BuildItem \<Rightarrow> thrown option \<times> 'sch) \<Rightarrow> ('b, 'sch) Manifest \<Rightarrow> nat
     \<Rightarrow> builder_error + ('b, 'sch) Manifest" where
  "tryInsert insert_effect manifest originId =
     (if originId < length manifest then
        let item = manifest ! originId;
            (exn, sch) = insert_effect originId item;
            item1 = set_schema sch item;
            item2 = (case exn of
                       None \<Rightarrow> item1
                     | Some (StdException what) \<Rightarrow> push_error what item1
                     | Some OtherException \<Rightarrow> push_error ''Unknown error during build'' item1)
        in Inr (manifest[originId := item2\<lparr>inserted := True\<rparr>])
      else Inl ManifestOutOfRange)"

definition active_bounds ::
  "('b \<Rightarrow> 'b \<Rightarrow> 'b) \<Rightarrow> ('b \<Rightarrow> 'sub \<Rightarrow> 'b) \<Rightarrow> ('b, 'sub) Metadata \<Rightarrow> 'b" where
  "active_bounds intersection getBounds metadata =
     (case subset metadata of
        Some sub \<Rightarrow> intersection (getBounds (bounds metadata) sub) (boundsConforming metadata)
      | None \<Rightarrow> boundsConforming metadata)"

text \<open>The test under which \<open>runInserts\<close> hands an item to the pool.\<close>

definition submittable :: "('b \<Rightarrow> 'b \<Rightarrow> bool) \<Rightarrow> 'b \<Rightarrow> ('b, 'sch) BuildItem \<Rightarrow> bool" where
  "submittable overlaps active item \<longleftrightarrow>
     \<not> inserted item \<and> points (info (source item)) \<noteq> 0 \<and>
     overlaps active (info_bounds (info (source item)))"

text \<open>
  The scanning loop of \<open>runInserts\<close>. Its result is the list of origins for which a
  \<open>tryInsert\<close> task was added to the pool, in the order of the calls to \<open>pool.add\<close>. A task
  writes only to its own item, so the items the loop still has to read are as they were
  when \<open>runInserts\<close> was entered.
\<close>

function runInserts_loop ::
  "('b \<Rightarrow> 'b \<Rightarrow> bool) \<Rightarrow> 'b \<Rightarrow> 64 word \<Rightarrow> ('b, 'sch) Manifest \<Rightarrow> nat \<Rightarrow> 64 word \<Rightarrow> nat list" where
  "runInserts_loop overlaps active limit manifest origin filesInserted =
     (if origin < length manifest \<and> (limit = 0 \<or> filesInserted < limit) then
        (if submittable overlaps active (manifest ! origin)
         then origin # runInserts_loop overlaps active limit manifest (Suc origin) (filesInserted + 1)
         else runInserts_loop overlaps active limit manifest (Suc origin) filesInserted)
      else [])"
  by pat_completeness auto
termination
  by (relation "measure (\<lambda>(overlaps, active, limit, manifest, origin, filesInserted).
        length manifest - origin)") auto

declare runInserts_loop.simps [simp del]

definition runInserts ::
  "('b \<Rightarrow> 'b \<Rightarrow> bool) \<Rightarrow> ('b \<Rightarrow> 'b \<Rightarrow> 'b) \<Rightarrow> ('b \<Rightarrow> 'sub \<Rightarrow> 'b) \<Rightarrow> ('b, 'sub) Metadata
     \<Rightarrow> ('b, 'sch) Manifest \<Rightarrow> 64 word \<Rightarrow> nat list" where
  "runInserts overlaps intersection getBounds metadata manifest limit =
     runInserts_loop overlaps (active_bounds intersection getBounds metadata) limit manifest 0 0"

text \<open>The origins a scan without limit would submit, from \<open>origin\<close> on.\<close>

definition qualifying ::
  "('b \<Rightarrow> 'b \<Rightarrow> bool) \<Rightarrow> 'b \<Rightarrow> ('b, 'sch) Manifest \<Rightarrow> nat \<Rightarrow> nat list" where
  "qualifying overlaps active manifest origin =
     filter (\<lambda>i. submittable overlaps active (manifest ! i)) [origin ..< length manifest]"

section \<open>builder/overflow.hpp and builder/chunk.hpp: the data of a chunk\<close>

text \<open>
  Modelled from the spec: the headers under \<open>types/\<close> (\<open>key.hpp\<close>, \<open>voxel.hpp\<close>,
  \<open>vector-point-table.hpp\<close>, \<open>defs.hpp\<close>) are not among the sources. Of the types a chunk
  is built from, only \<open>VoxelTube\<close>, \<open>Overflow\<close> and \<open>Chunk\<close> are; the others are modelled by
  what the specification and the code that uses them say of them:
  \<^item> \<open>Dir\<close>, an octant, is an enumeration of eight values; \<open>toIntegral\<close> gives its index,
    \<open>toDir\<close> goes back, and \<open>dirEnd()\<close> is eight;
  \<^item> \<open>Xyz\<close> is three \<open>uint64_t\<close> (the clipper constructs one from three of them);
  \<^item> a \<open>Key\<close> and a \<open>ChunkKey\<close> are the triples of bounds, depth and position of the
    specification, and \<open>dxyz()\<close> is the pair of depth and position;
  \<^item> a \<open>Point\<close> and a \<open>Bounds\<close> stay abstract (type variables \<open>'p\<close> and \<open>'b\<close>), as does the
    payload of a point record (\<open>'d\<close>);
  \<^item> a \<open>Voxel\<close> is a point and the payload its data pointer leads to;
  \<^item> a \<open>MemBlock\<close> is the list of its slots in the order \<open>next()\<close> handed them out, each with
    the payload written to it, and \<open>size()\<close> is the length of the list. The code holds sizes
    in \<open>uint64_t\<close>; a block in memory has fewer than \<open>2^64\<close> slots, so a size is a natural
    number here and is converted where it meets a counter that can wrap.
  Payloads are copied and exchanged whole, so the number of bytes of a point record
  (\<open>m_pointSize\<close>) does not appear. The spin locks are left out: the model is one thread.
\<close>

datatype Dir = Dir0 | Dir1 | Dir2 | Dir3 | Dir4 | Dir5 | Dir6 | Dir7

fun toIntegral :: "Dir \<Rightarrow> nat" where
  "toIntegral Dir0 = 0"
| "toIntegral Dir1 = 1"
| "toIntegral Dir2 = 2"
| "toIntegral Dir3 = 3"
| "toIntegral Dir4 = 4"
| "toIntegral Dir5 = 5"
| "toIntegral Dir6 = 6"
| "toIntegral Dir7 = 7"

definition toDir :: "nat \<Rightarrow> Dir" where
  "toDir i = (if i = 0 then Dir0 else if i = 1 then Dir1 else if i = 2 then Dir2
              else if i = 3 then Dir3 else if i = 4 then Dir4 else if i = 5 then Dir5
              else if i = 6 then Dir6 else Dir7)"

text \<open>The octants in the order of a loop \<open>for (i = 0; i < dirEnd(); ++i)\<close>.\<close>

definition dirs :: "Dir list" where
  "dirs = [Dir0, Dir1, Dir2, Dir3, Dir4, Dir5, Dir6, Dir7]"

record Xyz =
  pos_x :: "64 word"
  pos_y :: "64 word"
  pos_z :: "64 word"

record 'b Key =
  key_bounds :: 'b
  key_depth :: "64 word"
  key_position :: Xyz

record 'b ChunkKey =
  ck_bounds :: 'b
  ck_depth :: "64 word"
  ck_position :: Xyz

type_synonym Dxyz = "64 word \<times> Xyz"

definition dxyz :: "'b ChunkKey \<Rightarrow> Dxyz" where
  "dxyz ck = (ck_depth ck, ck_position ck)"

text \<open>
  Modelled from the spec: \<open>builder/hierarchy.hpp\<close> is not among the sources. The hierarchy
  is the sparse map from \<open>dxyz\<close> to a \<open>uint64_t\<close> point count (\<open>mergeOne\<close> walks it as
  \<open>hierarchy.map\<close> and skips the nodes whose count is zero), and \<open>hierarchy::get\<close> returns
  the count stored at a key, zero when the key is absent; the constructor of a chunk
  tests it with \<open>!\<close>.
\<close>

type_synonym Hierarchy = "Dxyz \<rightharpoonup> 64 word"

definition hierarchy_get :: "Hierarchy \<Rightarrow> Dxyz \<Rightarrow> 64 word" where
  "hierarchy_get h k = (case h k of None \<Rightarrow> 0 | Some np \<Rightarrow> np)"

record ('p, 'd) Voxel =
  point :: 'p
  data :: 'd

type_synonym 'd MemBlock = "'d list"

text \<open>
  A voxel of the grid keeps its point in the tube's map, and its data pointer leads to a
  slot of the chunk's \<open>m_gridBlock\<close>: \<open>gv_slot\<close> is the index of that slot.
\<close>

record 'p GridVoxel =
  gv_point :: 'p
  gv_slot :: nat

type_synonym 'p VoxelTube = "32 word \<rightharpoonup> 'p GridVoxel"

record ('p, 'b, 'd) Entry =
  voxel :: "('p, 'd) Voxel"
  key :: "'b Key"

record ('p, 'b, 'd) Overflow =
  chunkKey :: "'b ChunkKey"
  block :: "'d MemBlock"
  list :: "('p, 'b, 'd) Entry list"

definition Overflow_ctor :: "'b ChunkKey \<Rightarrow> ('p, 'b, 'd) Overflow" where
  "Overflow_ctor ck = \<lparr>chunkKey = ck, block = [], list = []\<rparr>"

text \<open>
  \<open>Overflow::insert\<close>: the entry's voxel takes the next slot of the block and a deep copy of
  the incoming voxel; nothing writes to the slot again while the entry is in the bucket.
\<close>

definition Overflow_insert ::
  "('p, 'b, 'd) Overflow \<Rightarrow> ('p, 'd) Voxel \<Rightarrow> 'b Key \<Rightarrow> ('p, 'b, 'd) Overflow" where
  "Overflow_insert ov v k =
     ov\<lparr>block := block ov @ [data v],
        list := list ov @ [\<lparr>voxel = \<lparr>point = point v, data = data v\<rparr>, key = k\<rparr>]\<rparr>"

record ('p, 'b, 'd, 'sub) Chunk =
  m_metadata :: "('b, 'sub) Metadata"
  m_span :: "64 word"
  m_chunkKey :: "'b ChunkKey"
  m_childKeys :: "Dir \<Rightarrow> 'b ChunkKey"
  m_grid :: "'p VoxelTube list"
  m_gridBlock :: "'d MemBlock"
  m_overflows :: "Dir \<Rightarrow> ('p, 'b, 'd) Overflow option"
  m_overflowCount :: "64 word"

definition childAt :: "('p, 'b, 'd, 'sub) Chunk \<Rightarrow> Dir \<Rightarrow> 'b ChunkKey" where
  "childAt c dir = m_childKeys c (toDir (toIntegral dir))"

text \<open>
  The functions of the missing headers that the chunk calls are parameters, gathered in
  one record: \<open>Bounds::mid\<close>, \<open>Point::sqDist3d\<close>, \<open>getDirection\<close>, \<open>getSharedDepth\<close>,
  \<open>Key::step\<close>, \<open>ChunkKey::getStep\<close>, \<open>ChunkKey::toString\<close> and \<open>getPostfix\<close>.
\<close>

record ('p, 'b, 'sub, 'r) Externals =
  mid :: "'b \<Rightarrow> 'p"
  sqDist3d :: "'p \<Rightarrow> 'p \<Rightarrow> 'r"
  getDirection :: "'p \<Rightarrow> 'p \<Rightarrow> Dir"
  getSharedDepth :: "('b, 'sub) Metadata \<Rightarrow> 64 word"
  step :: "'b Key \<Rightarrow> 'p \<Rightarrow> 'b Key"
  getStep :: "'b ChunkKey \<Rightarrow> Dir \<Rightarrow> 'b ChunkKey"
  toString :: "'b ChunkKey \<Rightarrow> string"
  getPostfix :: "('b, 'sub) Metadata \<Rightarrow> 64 word \<Rightarrow> string"

section \<open>builder/chunk.cpp: the operations of a chunk\<close>

text \<open>
  \<open>Chunk::Chunk\<close>. The grid is a vector of \<open>m_span * m_span\<close> empty tubes, the product
  taken in \<open>uint64_t\<close>; an octant gets an overflow bucket when \<open>hierarchy::get\<close> is zero at
  the key of its child.
\<close>

definition Chunk_ctor ::
  "('p, 'b, 'sub, 'r) Externals \<Rightarrow> ('b, 'sub) Metadata \<Rightarrow> 'b ChunkKey \<Rightarrow> Hierarchy
     \<Rightarrow> ('p, 'b, 'd, 'sub) Chunk" where
  "Chunk_ctor X m ck hierarchy =
     (let init = \<lparr>m_metadata = m, m_span = span m, m_chunkKey = ck,
                   m_childKeys = (\<lambda>dir. getStep X ck (toDir (toIntegral dir))),
                   m_grid = replicate (unat (span m * span m)) Map.empty,
                   m_gridBlock = [],
                   m_overflows = (\<lambda>dir. None),
                   m_overflowCount = 0\<rparr>
      in init\<lparr>m_overflows := (\<lambda>dir.
             if hierarchy_get hierarchy (dxyz (childAt init dir)) = 0
             then Some (Overflow_ctor (getStep X ck dir)) else None)\<rparr>)"

text \<open>
  What the code leaves undefined: a remainder by a span of zero, an index beyond the
  grid, and \<open>doOverflow\<close> on an octant without bucket (its \<open>assert\<close>).
\<close>

datatype chunk_fault = DivisionByZero | GridOutOfRange | AssertionFailed

text \<open>A call \<open>cache.insert(voxel, key, ck, clipper)\<close>, by its arguments.\<close>

record ('p, 'b, 'd) CacheInsert =
  ci_voxel :: "('p, 'd) Voxel"
  ci_key :: "'b Key"
  ci_chunkKey :: "'b ChunkKey"

text \<open>
  \<open>Chunk::doOverflow\<close> returns the chunk it leaves and the calls to \<open>cache.insert\<close> it
  made, in order. \<open>ChunkCache::insert\<close> starts at the child's key and only descends, so
  these calls do not come back to this chunk.
\<close>

definition doOverflow ::
  "('p, 'b, 'sub, 'r) Externals \<Rightarrow> ('p, 'b, 'd, 'sub) Chunk \<Rightarrow> Dir
     \<Rightarrow> chunk_fault + ('p, 'b, 'd, 'sub) Chunk \<times> ('p, 'b, 'd) CacheInsert list" where
  "doOverflow X c dir =
     (case m_overflows c dir of
        None \<Rightarrow> Inl AssertionFailed
      | Some active \<Rightarrow>
          let ck = m_childKeys c dir in
          Inr (c\<lparr>m_overflows := (m_overflows c)(dir := None),
                 m_overflowCount := m_overflowCount c - of_nat (length (block active))\<rparr>,
               map (\<lambda>entry. \<lparr>ci_voxel = voxel entry,
                               ci_key = step X (key entry) (point (voxel entry)),
                               ci_chunkKey = ck\<rparr>)
                   (list active)))"

text \<open>The loop of \<open>maybeOverflow\<close> that looks for the largest bucket.\<close>

fun select_overflow ::
  "(Dir \<Rightarrow> ('p, 'b, 'd) Overflow option) \<Rightarrow> Dir list \<Rightarrow> Dir \<times> nat \<Rightarrow> Dir \<times> nat" where
  "select_overflow ovs [] sel = sel"
| "select_overflow ovs (d # ds) (selectedIndex, selectedSize) =
     (case ovs d of
        Some current \<Rightarrow>
          if length (block current) > selectedSize
          then select_overflow ovs ds (d, length (block current))
          else select_overflow ovs ds (selectedIndex, selectedSize)
      | None \<Rightarrow> select_overflow ovs ds (selectedIndex, selectedSize))"

definition maybeOverflow ::
  "('p, 'b, 'sub, 'r) Externals \<Rightarrow> ('p, 'b, 'd, 'sub) Chunk
     \<Rightarrow> chunk_fault + ('p, 'b, 'd, 'sub) Chunk \<times> ('p, 'b, 'd) CacheInsert list" where
  "maybeOverflow X c =
     (let gridSize = (of_nat (length (m_gridBlock c)) :: 64 word);
          ourSize = gridSize + m_overflowCount c
      in if ourSize < maxNodeSize (internal (m_metadata c)) then Inr (c, [])
         else
           let (selectedIndex, selectedSize) = select_overflow (m_overflows c) dirs (Dir0, 0)
           in if selectedSize < unat (minNodeSize (internal (m_metadata c))) then Inr (c, [])
              else doOverflow X c selectedIndex)"

definition insertOverflow ::
  "('p, 'b, 'sub, 'r) Externals \<Rightarrow> ('p, 'b, 'd, 'sub) Chunk \<Rightarrow> ('p, 'd) Voxel \<Rightarrow> 'b Key
     \<Rightarrow> chunk_fault + bool \<times> ('p, 'b, 'd, 'sub) Chunk \<times> ('p, 'b, 'd) CacheInsert list" where
  "insertOverflow X c v k =
     (if ck_depth (m_chunkKey c) < getSharedDepth X (m_metadata c) then Inr (False, c, [])
      else
        let dir = getDirection X (mid X (ck_bounds (m_chunkKey c))) (point v) in
        case m_overflows c dir of
          None \<Rightarrow> Inr (False, c, [])
        | Some ov \<Rightarrow>
            let c1 = c\<lparr>m_overflows := (m_overflows c)(dir := Some (Overflow_insert ov v k)),
                      m_overflowCount := m_overflowCount c + 1\<rparr>
            in if m_overflowCount c1 \<ge> minNodeSize (internal (m_metadata c1))
               then (case maybeOverflow X c1 of
                       Inl fault \<Rightarrow> Inl fault
                     | Inr (c2, calls) \<Rightarrow> Inr (True, c2, calls))
               else Inr (True, c1, []))"

text \<open>
  \<open>Chunk::insert\<close>. The incoming voxel is a reference that \<open>swapDeep\<close> writes to, so the
  voxel the caller is left with is part of the result: the flag, the chunk, the voxel, and
  the calls to \<open>cache.insert\<close>. The tube's map has \<open>uint32_t\<close> keys, so \<open>pos.z\<close> is narrowed.
\<close>

definition insert_voxel ::
  "('p, 'b, 'sub, 'r::ord) Externals \<Rightarrow> ('p, 'b, 'd, 'sub) Chunk \<Rightarrow> ('p, 'd) Voxel \<Rightarrow> 'b Key
     \<Rightarrow> chunk_fault +
        bool \<times> ('p, 'b, 'd, 'sub) Chunk \<times> ('p, 'd) Voxel \<times> ('p, 'b, 'd) CacheInsert list" where
  "insert_voxel X c v k =
     (let pos = key_position k in
      if m_span c = 0 then Inl DivisionByZero
      else
        let i = unat ((pos_y pos mod m_span c) * m_span c + (pos_x pos mod m_span c)) in
        if length (m_grid c) \<le> i then Inl GridOutOfRange
        else
          let tube = m_grid c ! i;
              zk = (ucast (pos_z pos) :: 32 word)
          in case tube zk of
               Some dst \<Rightarrow>
                 let m = mid X (key_bounds k);
                     swap = sqDist3d X (point v) m < sqDist3d X (gv_point dst) m;
                     c1 = (if swap
                           then c\<lparr>m_grid := (m_grid c)[i := tube(zk \<mapsto> dst\<lparr>gv_point := point v\<rparr>)],
                                  m_gridBlock := (m_gridBlock c)[gv_slot dst := data v]\<rparr>
                           else c);
                     v1 = (if swap
                           then \<lparr>point = gv_point dst, data = m_gridBlock c ! gv_slot dst\<rparr>
                           else v)
                 in (case insertOverflow X c1 v1 k of
                       Inl fault \<Rightarrow> Inl fault
                     | Inr (flag, c2, calls) \<Rightarrow> Inr (flag, c2, v1, calls))
             | None \<Rightarrow>
                 Inr (True,
                      c\<lparr>m_grid := (m_grid c)[i := tube(zk \<mapsto>
                                    \<lparr>gv_point = point v, gv_slot = length (m_gridBlock c)\<rparr>)],
                        m_gridBlock := m_gridBlock c @ [data v]\<rparr>,
                      v, []))"

text \<open>
  \<open>Chunk::save\<close> returns the point count and hands a table to \<open>io::write\<close>; the call is
  kept by its arguments (the metadata and the endpoints are passed on as they are).
\<close>

record ('b, 'd) WriteCall =
  w_dataType :: string
  w_filename :: string
  w_table :: "'d list"
  w_bounds :: 'b

fun save_count :: "('p, 'b, 'd) Overflow option list \<Rightarrow> 64 word \<Rightarrow> 64 word" where
  "save_count [] np = np"
| "save_count (None # os) np = save_count os np"
| "save_count (Some ov # os) np = save_count os (np + of_nat (length (block ov)))"

fun save_table :: "('p, 'b, 'd) Overflow option list \<Rightarrow> 'd list \<Rightarrow> 'd list" where
  "save_table [] table = table"
| "save_table (None # os) table = save_table os table"
| "save_table (Some ov # os) table = save_table os (table @ block ov)"

definition save ::
  "('p, 'b, 'sub, 'r) Externals \<Rightarrow> ('p, 'b, 'd, 'sub) Chunk \<Rightarrow> 64 word \<times> ('b, 'd) WriteCall" where
  "save X c =
     (let np = save_count (map (m_overflows c) dirs) (of_nat (length (m_gridBlock c)));
          table = save_table (map (m_overflows c) dirs) ([] @ m_gridBlock c);
          filename = toString X (m_chunkKey c)
                       @ getPostfix X (m_metadata c) (ck_depth (m_chunkKey c))
      in (np, \<lparr>w_dataType = dataType (m_metadata c), w_filename = filename,
                w_table = table, w_bounds = ck_bounds (m_chunkKey c)\<rparr>))"


text \<open>
  The span of the specification, in its words: \<open>2^(depth - start_depth)\<close> clamped to the
  root tile width.
\<close>

definition spec_span :: "nat \<Rightarrow> nat \<Rightarrow> nat \<Rightarrow> nat" where
  "spec_span depth start_depth root_width = min (2 ^ (depth - start_depth)) root_width"

text \<open>
  A concrete instance for running the driver: bounds are intervals of integers, a subset
  is given by the interval it covers, and the schema carries nothing.
\<close>

definition ivl_overlaps :: "int \<times> int \<Rightarrow> int \<times> int \<Rightarrow> bool" where
  "ivl_overlaps a b \<longleftrightarrow> fst a < snd b \<and> fst b < snd a"

definition ivl_intersection :: "int \<times> int \<Rightarrow> int \<times> int \<Rightarrow> int \<times> int" where
  "ivl_intersection a b = (max (fst a) (fst b), min (snd a) (snd b))"

definition ivl_getBounds :: "int \<times> int \<Rightarrow> int \<times> int \<Rightarrow> int \<times> int" where
  "ivl_getBounds b sub = ivl_intersection b sub"

definition example_item :: "bool \<Rightarrow> 64 word \<Rightarrow> int \<times> int \<Rightarrow> (int \<times> int, unit) BuildItem" where
  "example_item ins np b =
     \<lparr>source = \<lparr>path = ''in.laz'',
                info = \<lparr>errors = [], points = np, info_bounds = b, schema = ()\<rparr>\<rparr>,
      inserted = ins\<rparr>"

definition example_metadata :: "(int \<times> int, int \<times> int) Metadata" where
  "example_metadata =
     \<lparr>span = 2, dataType = ''binary'', internal = \<lparr>minNodeSize = 2, maxNodeSize = 3\<rparr>,
      subset = None, bounds = (0, 16), boundsConforming = (0, 10)\<rparr>"

definition example_manifest :: "(int \<times> int, unit) Manifest" where
  "example_manifest =
     [example_item True 5 (0, 4), example_item False 7 (2, 6), example_item False 0 (1, 3),
      example_item False 3 (20, 30), example_item False 9 (0, 10)]"

definition example_effect :: "nat \<Rightarrow> (int \<times> int, unit) BuildItem \<Rightarrow> thrown option \<times> unit" where
  "example_effect origin item =
     (if origin = 1 then (Some (StdException ''unreadable''), ())
      else if origin = 3 then (Some OtherException, ())
      else (None, ()))"

text \<open>
  A concrete instance for running the chunk: points are triples of integers, bounds are
  pairs of corner points, payloads are strings. The octant of a point has bit 0 set when
  the point is not below the midpoint in x, bit 1 in y, bit 2 in z; a step into an octant
  halves the bounds and doubles the position. The states \<open>ex_chunk1\<close>, \<open>ex_chunk2\<close> are those
  a fresh root chunk goes through when \<open>ex_u\<close> and then \<open>ex_t\<close> are inserted.
\<close>

type_synonym pt = "int \<times> int \<times> int"

definition ex_mid :: "pt \<times> pt \<Rightarrow> pt" where
  "ex_mid b = (case b of ((x0, y0, z0), (x1, y1, z1)) \<Rightarrow>
     ((x0 + x1) div 2, (y0 + y1) div 2, (z0 + z1) div 2))"

definition ex_sqDist3d :: "pt \<Rightarrow> pt \<Rightarrow> int" where
  "ex_sqDist3d p q = (case (p, q) of ((x0, y0, z0), (x1, y1, z1)) \<Rightarrow>
     (x0 - x1) * (x0 - x1) + (y0 - y1) * (y0 - y1) + (z0 - z1) * (z0 - z1))"

definition ex_getDirection :: "pt \<Rightarrow> pt \<Rightarrow> Dir" where
  "ex_getDirection m p = (case (m, p) of ((mx, my, mz), (px, py, pz)) \<Rightarrow>
     toDir ((if mx \<le> px then 1 else 0) + (if my \<le> py then 2 else 0) + (if mz \<le> pz then 4 else 0)))"

definition ex_go :: "pt \<times> pt \<Rightarrow> Dir \<Rightarrow> pt \<times> pt" where
  "ex_go b dir = (case (b, ex_mid b) of (((x0, y0, z0), (x1, y1, z1)), (mx, my, mz)) \<Rightarrow>
     ((if odd (toIntegral dir) then mx else x0,
       if odd (toIntegral dir div 2) then my else y0,
       if odd (toIntegral dir div 4) then mz else z0),
      (if odd (toIntegral dir) then x1 else mx,
       if odd (toIntegral dir div 2) then y1 else my,
       if odd (toIntegral dir div 4) then z1 else mz)))"

definition ex_descend :: "Xyz \<Rightarrow> Dir \<Rightarrow> Xyz" where
  "ex_descend p dir =
     \<lparr>pos_x = 2 * pos_x p + (if odd (toIntegral dir) then 1 else 0),
      pos_y = 2 * pos_y p + (if odd (toIntegral dir div 2) then 1 else 0),
      pos_z = 2 * pos_z p + (if odd (toIntegral dir div 4) then 1 else 0)\<rparr>"

definition ex_step :: "(pt \<times> pt) Key \<Rightarrow> pt \<Rightarrow> (pt \<times> pt) Key" where
  "ex_step k p =
     (let dir = ex_getDirection (ex_mid (key_bounds k)) p
      in \<lparr>key_bounds = ex_go (key_bounds k) dir, key_depth = key_depth k + 1,
          key_position = ex_descend (key_position k) dir\<rparr>)"

definition ex_getStep :: "(pt \<times> pt) ChunkKey \<Rightarrow> Dir \<Rightarrow> (pt \<times> pt) ChunkKey" where
  "ex_getStep ck dir =
     \<lparr>ck_bounds = ex_go (ck_bounds ck) dir, ck_depth = ck_depth ck + 1,
      ck_position = ex_descend (ck_position ck) dir\<rparr>"

definition ex_X :: "(pt, pt \<times> pt, unit, int) Externals" where
  "ex_X = \<lparr>mid = ex_mid, sqDist3d = ex_sqDist3d, getDirection = ex_getDirection,
            getSharedDepth = (\<lambda>m. 0), step = ex_step, getStep = ex_getStep,
            toString = (\<lambda>ck. if ck_depth ck = 0 then ''0-0-0-0'' else ''deeper''),
            getPostfix = (\<lambda>m d. '''')\<rparr>"

definition ex_md :: "(pt \<times> pt, unit) Metadata" where
  "ex_md = \<lparr>span = 2, dataType = ''binary'', internal = \<lparr>minNodeSize = 2, maxNodeSize = 3\<rparr>,
             subset = None, bounds = ((0, 0, 0), (8, 8, 8)),
             boundsConforming = ((0, 0, 0), (8, 8, 8))\<rparr>"

definition ex_ck :: "(pt \<times> pt) ChunkKey" where
  "ex_ck = \<lparr>ck_bounds = ((0, 0, 0), (8, 8, 8)), ck_depth = 0,
             ck_position = \<lparr>pos_x = 0, pos_y = 0, pos_z = 0\<rparr>\<rparr>"

definition ex_key :: "(pt \<times> pt) Key" where
  "ex_key = \<lparr>key_bounds = ((0, 0, 0), (4, 4, 4)), key_depth = 1,
              key_position = \<lparr>pos_x = 0, pos_y = 0, pos_z = 0\<rparr>\<rparr>"

definition ex_chunk0 :: "(pt, pt \<times> pt, string, unit) Chunk" where
  "ex_chunk0 = Chunk_ctor ex_X ex_md ex_ck Map.empty"

definition chunk_of ::
  "chunk_fault + bool \<times> ('p, 'b, 'd, 'sub) Chunk \<times> ('p, 'd) Voxel \<times> ('p, 'b, 'd) CacheInsert list
     \<Rightarrow> ('p, 'b, 'd, 'sub) Chunk \<Rightarrow> ('p, 'b, 'd, 'sub) Chunk" where
  "chunk_of res c0 = (case res of Inl fault \<Rightarrow> c0 | Inr (flag, c, v, calls) \<Rightarrow> c)"

definition ex_u :: "(pt, string) Voxel" where "ex_u = \<lparr>point = (3, 3, 3), data = ''u''\<rparr>"
definition ex_t :: "(pt, string) Voxel" where "ex_t = \<lparr>point = (2, 2, 2), data = ''t''\<rparr>"
definition ex_w :: "(pt, string) Voxel" where "ex_w = \<lparr>point = (3, 3, 2), data = ''w''\<rparr>"

definition ex_chunk1 :: "(pt, pt \<times> pt, string, unit) Chunk" where
  "ex_chunk1 = chunk_of (insert_voxel ex_X ex_chunk0 ex_u ex_key) ex_chunk0"

definition ex_chunk2 :: "(pt, pt \<times> pt, string, unit) Chunk" where
  "ex_chunk2 = chunk_of (insert_voxel ex_X ex_chunk1 ex_t ex_key) ex_chunk1"

definition ex_bucket1 :: "(pt, pt \<times> pt, string) Overflow" where
  "ex_bucket1 = \<lparr>chunkKey = ex_getStep ex_ck Dir0, block = [''u''],
                  list = [\<lparr>voxel = ex_u, key = ex_key\<rparr>]\<rparr>"

definition ex_bucket2 :: "(pt, pt \<times> pt, string) Overflow" where
  "ex_bucket2 = \<lparr>chunkKey = ex_getStep ex_ck Dir0, block = [''u'', ''w''],
                  list = [\<lparr>voxel = ex_u, key = ex_key\<rparr>, \<lparr>voxel = ex_w, key = ex_key\<rparr>]\<rparr>"

text \<open>The chunk in which \<open>maybeOverflow\<close> runs when \<open>ex_w\<close> arrives.\<close>

definition ex_chunk_full :: "(pt, pt \<times> pt, string, unit) Chunk" where
  "ex_chunk_full = ex_chunk2\<lparr>m_overflows := (m_overflows ex_chunk2)(Dir0 \<mapsto> ex_bucket2),
                             m_overflowCount := 2\<rparr>"

definition ex_calls :: "(pt, pt \<times> pt, string) CacheInsert list" where
  "ex_calls = [\<lparr>ci_voxel = ex_u, ci_key = ex_step ex_key (3, 3, 3),
                 ci_chunkKey = ex_getStep ex_ck Dir0\<rparr>,
               \<lparr>ci_voxel = ex_w, ci_key = ex_step ex_key (3, 3, 2),
                 ci_chunkKey = ex_getStep ex_ck Dir0\<rparr>]"

definition ex_chunk3 :: "(pt, pt \<times> pt, string, unit) Chunk" where
  "ex_chunk3 = ex_chunk_full\<lparr>m_overflows := (m_overflows ex_chunk_full)(Dir0 := None),
                             m_overflowCount := 0\<rparr>"

definition ex_h5 :: Hierarchy where
  "ex_h5 = [dxyz (ex_getStep ex_ck Dir0) \<mapsto> 5]"

definition ex_h0 :: Hierarchy where
  "ex_h0 = [dxyz (ex_getStep ex_ck Dir0) \<mapsto> 0]"

section \<open>Properties of min\_element and max\_element\<close>

lemma swo_irrefl: "strict_weak_order cmp \<Longrightarrow> \<not> cmp a a"
  unfolding strict_weak_order_def by blast

lemma swo_trans: "strict_weak_order cmp \<Longrightarrow> cmp a b \<Longrightarrow> cmp b c \<Longrightarrow> cmp a c"
  unfolding strict_weak_order_def by blast

lemma swo_neg: "strict_weak_order cmp \<Longrightarrow> cmp c s \<Longrightarrow> \<not> cmp k s \<Longrightarrow> cmp c k"
  unfolding strict_weak_order_def by metis

lemma swo_converse: "strict_weak_order cmp \<Longrightarrow> strict_weak_order (\<lambda>a b. cmp b a)"
  unfolding strict_weak_order_def by blast

lemma swo_less_nat: "strict_weak_order ((<) :: nat \<Rightarrow> nat \<Rightarrow> bool)"
  unfolding strict_weak_order_def by auto

lemma swo_greater_nat: "strict_weak_order (\<lambda>a b :: nat. b < a)"
  unfolding strict_weak_order_def by auto

text \<open>One turn of the loop keeps "smallest is the first minimum of what was scanned".\<close>

lemma first_min_step:
  assumes swo: "strict_weak_order cmp" and fm: "first_min cmp xs n s"
  shows "first_min cmp xs (Suc n) (if cmp (xs ! n) (xs ! s) then n else s)"
proof (cases "cmp (xs ! n) (xs ! s)")
  case True
  have a: "\<not> cmp (xs ! j) (xs ! n)" if "j < Suc n" for j
  proof (cases "j = n")
    case True
    then show ?thesis using swo_irrefl [OF swo] by simp
  next
    case False
    with that have "j < n" by simp
    with fm have "\<not> cmp (xs ! j) (xs ! s)" by (simp add: first_min_def)
    with True show ?thesis using swo_trans [OF swo] by blast
  qed
  have b: "\<exists>j<Suc n. cmp (xs ! j) (xs ! k)" if "k < n" for k
  proof -
    from fm that have "\<not> cmp (xs ! k) (xs ! s)" by (simp add: first_min_def)
    with True have "cmp (xs ! n) (xs ! k)" using swo_neg [OF swo] by blast
    then show ?thesis by blast
  qed
  from True a b show ?thesis by (simp add: first_min_def)
next
  case False
  have a: "\<not> cmp (xs ! j) (xs ! s)" if "j < Suc n" for j
    using that fm False by (cases "j = n") (auto simp: first_min_def)
  have b: "\<exists>j<Suc n. cmp (xs ! j) (xs ! k)" if "k < s" for k
  proof -
    from fm that obtain j where "j < n" "cmp (xs ! j) (xs ! k)" by (auto simp: first_min_def)
    then show ?thesis using less_Suc_eq by blast
  qed
  from fm have "s < Suc n" by (simp add: first_min_def)
  with False a b show ?thesis by (simp add: first_min_def)
qed

lemma min_element_comp_loop_first:
  "strict_weak_order cmp \<Longrightarrow> cur \<le> length xs \<Longrightarrow> first_min cmp xs cur smallest \<Longrightarrow>
     first_min cmp xs (length xs) (min_element_comp_loop cmp xs smallest cur)"
proof (induction cmp xs smallest cur rule: min_element_comp_loop.induct)
  case (1 cmp xs smallest cur)
  show ?case
  proof (cases "cur < length xs")
    case True
    have "first_min cmp xs (Suc cur) (if cmp (xs ! cur) (xs ! smallest) then cur else smallest)"
      using first_min_step [OF "1.prems"(1) "1.prems"(3)] .
    with True "1.IH" "1.prems"(1) show ?thesis
      by (subst min_element_comp_loop.simps) simp
  next
    case False
    with "1.prems" show ?thesis by (subst min_element_comp_loop.simps) simp
  qed
qed

lemma first_min_single: "strict_weak_order cmp \<Longrightarrow> first_min cmp xs (Suc 0) 0"
  by (simp add: first_min_def swo_irrefl)

lemma min_element_comp_first:
  assumes "strict_weak_order cmp" and "xs \<noteq> []"
  shows "first_min cmp xs (length xs) (min_element_comp xs cmp)"
proof -
  from assms(2) have "Suc 0 \<le> length xs" by (cases xs) simp_all
  then have "first_min cmp xs (length xs) (min_element_comp_loop cmp xs 0 (Suc 0))"
    using min_element_comp_loop_first [OF assms(1) _ first_min_single [OF assms(1)]] by blast
  with assms(2) show ?thesis by (simp add: min_element_comp_def)
qed

text \<open>The three other loops are the same loop, up to the comparison.\<close>

lemma max_loop_is_min_loop:
  "max_element_comp_loop cmp xs largest cur = min_element_comp_loop (\<lambda>a b. cmp b a) xs largest cur"
proof (induction cmp xs largest cur rule: max_element_comp_loop.induct)
  case (1 cmp xs largest cur)
  show ?case
  proof (cases "cur < length xs")
    case True
    with "1.IH" show ?thesis
      by (subst max_element_comp_loop.simps, subst min_element_comp_loop.simps) simp
  next
    case False
    then show ?thesis
      by (subst max_element_comp_loop.simps, subst min_element_comp_loop.simps) simp
  qed
qed

lemma min_loop_less: "min_element_loop xs smallest cur = min_element_comp_loop (<) xs smallest cur"
proof (induction xs smallest cur rule: min_element_loop.induct)
  case (1 xs smallest cur)
  show ?case
  proof (cases "cur < length xs")
    case True
    with "1.IH" show ?thesis
      by (subst min_element_loop.simps, subst min_element_comp_loop.simps) simp
  next
    case False
    then show ?thesis
      by (subst min_element_loop.simps, subst min_element_comp_loop.simps) simp
  qed
qed

lemma max_loop_less: "max_element_loop xs largest cur = max_element_comp_loop (<) xs largest cur"
proof (induction xs largest cur rule: max_element_loop.induct)
  case (1 xs largest cur)
  show ?case
  proof (cases "cur < length xs")
    case True
    with "1.IH" show ?thesis
      by (subst max_element_loop.simps, subst max_element_comp_loop.simps) simp
  next
    case False
    then show ?thesis
      by (subst max_element_loop.simps, subst max_element_comp_loop.simps) simp
  qed
qed

lemma min_element_less: "min_element xs = min_element_comp xs (<)"
  by (simp add: min_element_def min_element_comp_def min_loop_less)

lemma max_element_less: "max_element xs = max_element_comp xs (<)"
  by (simp add: max_element_def max_element_comp_def max_loop_less)

lemma max_element_comp_converse: "max_element_comp xs cmp = min_element_comp xs (\<lambda>a b. cmp b a)"
  by (simp add: max_element_comp_def min_element_comp_def max_loop_is_min_loop)

lemma first_max_converse: "first_max cmp xs n i = first_min (\<lambda>a b. cmp b a) xs n i"
  by (simp add: first_max_def first_min_def)

lemma max_element_comp_first:
  assumes "strict_weak_order cmp" and "xs \<noteq> []"
  shows "first_max cmp xs (length xs) (max_element_comp xs cmp)"
  using min_element_comp_first [OF swo_converse [OF assms(1)] assms(2)]
  by (simp add: max_element_comp_converse first_max_converse)

text \<open>On a linear order the element found is the least (greatest) one of the range.\<close>

lemma swo_less_linorder: "strict_weak_order ((<) :: 'a::linorder \<Rightarrow> 'a \<Rightarrow> bool)"
  unfolding strict_weak_order_def by auto

lemma min_element_Min:
  fixes xs :: "'a::linorder list"
  assumes "xs \<noteq> []"
  shows "xs ! min_element xs = Min (set xs)"
proof -
  let ?i = "min_element xs"
  have fm: "first_min (<) xs (length xs) ?i"
    using min_element_comp_first [OF swo_less_linorder assms] by (simp add: min_element_less)
  then have i: "?i < length xs" and le: "\<forall>j<length xs. xs ! ?i \<le> xs ! j"
    by (auto simp: first_min_def not_less)
  from le have "\<forall>y\<in>set xs. xs ! ?i \<le> y" by (auto simp: in_set_conv_nth)
  with i show ?thesis by (intro Min_eqI [symmetric]) auto
qed

lemma max_element_Max:
  fixes xs :: "'a::linorder list"
  assumes "xs \<noteq> []"
  shows "xs ! max_element xs = Max (set xs)"
proof -
  let ?i = "max_element xs"
  have fm: "first_max (<) xs (length xs) ?i"
    using max_element_comp_first [OF swo_less_linorder assms] by (simp add: max_element_less)
  then have i: "?i < length xs" and le: "\<forall>j<length xs. xs ! j \<le> xs ! ?i"
    by (auto simp: first_max_def not_less)
  from le have "\<forall>y\<in>set xs. y \<le> xs ! ?i" by (auto simp: in_set_conv_nth)
  with i show ?thesis by (intro Max_eqI [symmetric]) auto
qed

text \<open>
  Claim C10. On an empty range the four functions return \<open>last\<close> (here the length of the
  list). On a non-empty range, and for a comparison that is a strict weak ordering,
  \<open>min_element\<close> returns the position of the first element that no element is below, and
  \<open>max_element\<close> the position of the first element that no element is above: on ties the
  earliest extremal element wins, as \<open>std::min_element\<close> and \<open>std::max_element\<close> do. The
  overloads without a comparison use \<open><\<close>.
\<close>

theorem min_max_element_first_extremum:
  fixes xs :: "'a::ord list" and cmp :: "'a \<Rightarrow> 'a \<Rightarrow> bool"
  assumes "strict_weak_order cmp" and "strict_weak_order ((<) :: 'a \<Rightarrow> 'a \<Rightarrow> bool)"
  shows "(xs = [] \<longrightarrow>
            min_element xs = length xs \<and> min_element_comp xs cmp = length xs \<and>
            max_element xs = length xs \<and> max_element_comp xs cmp = length xs) \<and>
         (xs \<noteq> [] \<longrightarrow>
            first_min (<) xs (length xs) (min_element xs) \<and>
            first_min cmp xs (length xs) (min_element_comp xs cmp) \<and>
            first_max (<) xs (length xs) (max_element xs) \<and>
            first_max cmp xs (length xs) (max_element_comp xs cmp))"
proof (cases "xs = []")
  case True
  then show ?thesis
    by (simp add: min_element_def min_element_comp_def max_element_def max_element_comp_def)
next
  case False
  have "first_min (<) xs (length xs) (min_element xs)"
    using min_element_comp_first [OF assms(2) False] by (simp add: min_element_less)
  moreover have "first_min cmp xs (length xs) (min_element_comp xs cmp)"
    using min_element_comp_first [OF assms(1) False] .
  moreover have "first_max (<) xs (length xs) (max_element xs)"
    using max_element_comp_first [OF assms(2) False] by (simp add: max_element_less)
  moreover have "first_max cmp xs (length xs) (max_element_comp xs cmp)"
    using max_element_comp_first [OF assms(1) False] .
  ultimately show ?thesis using False by simp
qed

theorem min_max_element_first_extremum_witness:
  "strict_weak_order (\<lambda>a b :: nat. b < a) \<and> strict_weak_order ((<) :: nat \<Rightarrow> nat \<Rightarrow> bool) \<and>
   [3, 1, 2, 1 :: nat] \<noteq> [] \<and>
   first_min (<) [3, 1, 2, 1 :: nat] (length [3, 1, 2, 1 :: nat]) (min_element [3, 1, 2, 1 :: nat]) \<and>
   first_max (\<lambda>a b. b < a) [3, 1, 2, 1 :: nat] (length [3, 1, 2, 1 :: nat])
     (max_element_comp [3, 1, 2, 1 :: nat] (\<lambda>a b. b < a))"
proof -
  have ne: "[3, 1, 2, 1 :: nat] \<noteq> []" by simp
  show ?thesis
    using min_max_element_first_extremum [OF swo_greater_nat swo_less_nat, of "[3, 1, 2, 1]"]
      swo_greater_nat swo_less_nat ne
    by blast
qed


section \<open>Properties of the insertion driver\<close>

lemma word_succ: "(x::64 word) < y \<Longrightarrow> unat (x + 1) = Suc (unat x)"
proof -
  assume lt: "x < y"
  have "1 + x \<noteq> 0"
  proof
    assume "1 + x = 0"
    then have "x = - 1" by (simp add: eq_neg_iff_add_eq_0 add.commute)
    with lt show False by simp
  qed
  then show ?thesis using unatSuc [of x] by (simp add: add.commute)
qed

lemma qualifying_step:
  "origin < length manifest \<Longrightarrow> qualifying ov a manifest origin =
     (if submittable ov a (manifest ! origin) then origin # qualifying ov a manifest (Suc origin)
      else qualifying ov a manifest (Suc origin))"
  by (simp add: qualifying_def upt_conv_Cons)

lemma runInserts_loop_nolimit:
  "runInserts_loop ov a 0 manifest origin fi = qualifying ov a manifest origin"
proof (induction ov a "0::64 word" manifest origin fi rule: runInserts_loop.induct)
  case (1 ov a manifest origin fi)
  show ?case
  proof (cases "origin < length manifest")
    case True
    with 1 show ?thesis
      by (subst runInserts_loop.simps) (simp add: qualifying_step)
  next
    case False
    then show ?thesis by (subst runInserts_loop.simps) (simp add: qualifying_def)
  qed
qed

lemma runInserts_loop_limit:
  "fi \<le> limit \<Longrightarrow> limit \<noteq> 0 \<Longrightarrow>
   runInserts_loop ov a limit manifest origin fi =
     take (unat limit - unat fi) (qualifying ov a manifest origin)"
proof (induction ov a limit manifest origin fi rule: runInserts_loop.induct)
  case (1 ov a limit manifest origin fi)
  show ?case
  proof (cases "origin < length manifest \<and> fi < limit")
    case True
    then have lt: "fi < limit" and o: "origin < length manifest" by auto
    have s: "unat (fi + 1) = Suc (unat fi)" using word_succ [OF lt] .
    have le: "fi + 1 \<le> limit" using lt by (simp add: inc_le)
    have d: "unat limit - unat fi = Suc (unat limit - unat (fi + 1))"
      using lt s by (simp add: word_less_nat_alt)
    show ?thesis
    proof (cases "submittable ov a (manifest ! origin)")
      case True
      with 1 lt o le d show ?thesis
        by (subst runInserts_loop.simps) (simp add: qualifying_step)
    next
      case False
      with 1 lt o show ?thesis
        by (subst runInserts_loop.simps) (simp add: qualifying_step)
    qed
  next
    case False
    then consider "\<not> origin < length manifest" | "\<not> fi < limit" by blast
    then show ?thesis
    proof cases
      case 1
      then show ?thesis by (subst runInserts_loop.simps) (simp add: qualifying_def)
    next
      case 2
      with "1.prems" have "fi = limit" by simp
      with "1.prems" show ?thesis by (subst runInserts_loop.simps) simp
    qed
  qed
qed

lemma runInserts_loop_eq:
  "runInserts_loop ov a limit manifest 0 0 =
     (if limit = 0 then qualifying ov a manifest 0
      else take (unat limit) (qualifying ov a manifest 0))"
  using runInserts_loop_nolimit [of ov a manifest 0 0]
    runInserts_loop_limit [of 0 limit ov a manifest 0]
  by simp

lemma set_qualifying:
  "set (qualifying ov a manifest 0) = {i. i < length manifest \<and> submittable ov a (manifest ! i)}"
  by (auto simp: qualifying_def)

lemma runInserts_loop_subset:
  "set (runInserts_loop ov a limit manifest 0 0)
     \<subseteq> {i. i < length manifest \<and> submittable ov a (manifest ! i)}"
  using set_take_subset [of "unat limit" "qualifying ov a manifest 0"]
  by (simp only: runInserts_loop_eq set_qualifying [symmetric] split: if_split) simp


lemma errors_push_error [simp]:
  "errors (info (source (push_error msg item))) = errors (info (source item)) @ [msg]"
  by (simp add: push_error_def)

lemma inserted_push_error [simp]: "inserted (push_error msg item) = inserted item"
  by (simp add: push_error_def)

lemma errors_set_schema [simp]:
  "errors (info (source (set_schema sch item))) = errors (info (source item))"
  by (simp add: set_schema_def)

text \<open>
  Claim C8. For an origin of the manifest, \<open>tryInsert\<close> returns normally whatever the wrapped
  \<open>insert\<close> threw. The manifest keeps its length and its other items; the item of the origin
  is marked inserted, and its error list has grown by the message of the
  \<open>std::exception\<close>, by "Unknown error during build" for any other thrown object, and by
  nothing when \<open>insert\<close> returned. The item then fails the test of \<open>runInserts\<close>, so a later
  scan of the manifest does not submit this origin again.
\<close>

theorem tryInsert_captures_and_marks:
  assumes "originId < length manifest"
  shows "\<exists>m'. tryInsert insert_effect manifest originId = Inr m' \<and>
           length m' = length manifest \<and>
           inserted (m' ! originId) \<and>
           errors (info (source (m' ! originId))) =
             errors (info (source (manifest ! originId))) @
               (case fst (insert_effect originId (manifest ! originId)) of
                  None \<Rightarrow> []
                | Some (StdException what) \<Rightarrow> [what]
                | Some OtherException \<Rightarrow> [''Unknown error during build'']) \<and>
           (\<forall>j<length manifest. j \<noteq> originId \<longrightarrow> m' ! j = manifest ! j) \<and>
           \<not> submittable overlaps active (m' ! originId) \<and>
           originId \<notin> set (runInserts_loop overlaps active limit m' 0 0)"
proof -
  obtain exn sch where eff: "insert_effect originId (manifest ! originId) = (exn, sch)"
    by (cases "insert_effect originId (manifest ! originId)")
  define item2 where "item2 =
    (case exn of
       None \<Rightarrow> set_schema sch (manifest ! originId)
     | Some (StdException what) \<Rightarrow> push_error what (set_schema sch (manifest ! originId))
     | Some OtherException \<Rightarrow>
         push_error ''Unknown error during build'' (set_schema sch (manifest ! originId)))"
  define m' where "m' = manifest[originId := item2\<lparr>inserted := True\<rparr>]"
  have run: "tryInsert insert_effect manifest originId = Inr m'"
    using assms eff by (simp add: tryInsert_def m'_def item2_def Let_def)
  have len: "length m' = length manifest" by (simp add: m'_def)
  have at: "m' ! originId = item2\<lparr>inserted := True\<rparr>" using assms by (simp add: m'_def)
  have ins: "inserted (m' ! originId)" by (simp add: at)
  have errs: "errors (info (source item2)) =
      errors (info (source (manifest ! originId))) @
        (case exn of None \<Rightarrow> [] | Some (StdException what) \<Rightarrow> [what]
         | Some OtherException \<Rightarrow> [''Unknown error during build''])"
    by (cases exn; simp add: item2_def split: thrown.split)
  have others: "\<forall>j<length manifest. j \<noteq> originId \<longrightarrow> m' ! j = manifest ! j"
    by (simp add: m'_def)
  have nosub: "\<not> submittable overlaps active (m' ! originId)"
    using ins by (simp add: submittable_def)
  have "originId \<notin> set (runInserts_loop overlaps active limit m' 0 0)"
    using runInserts_loop_subset [of overlaps active limit m'] nosub by blast
  with run len ins errs others nosub show ?thesis
    by (simp add: at eff)
qed

theorem tryInsert_captures_and_marks_witness:
  "(1::nat) < length example_manifest \<and>
   (\<exists>m'. tryInsert example_effect example_manifest 1 = Inr m' \<and>
      length m' = 5 \<and> inserted (m' ! 1) \<and>
      errors (info (source (m' ! 1))) = [''unreadable''] \<and>
      1 \<notin> set (runInserts_loop ivl_overlaps (0, 10) 0 m' 0 0))"
proof -
  have h: "(1::nat) < length example_manifest" by (simp add: example_manifest_def)
  have e: "errors (info (source (example_manifest ! Suc 0))) = []"
    by (simp add: example_manifest_def example_item_def)
  have l: "length example_manifest = 5" by (simp add: example_manifest_def)
  show ?thesis
    using tryInsert_captures_and_marks [OF h, of example_effect ivl_overlaps "(0, 10)" 0] h
    by (auto simp: e l example_effect_def)
qed

text \<open>
  Claim C9. The origins that \<open>runInserts\<close> submits are the origins of the items that are not
  marked inserted, have a point count other than zero and overlap the active bounds, in
  manifest order: all of them when \<open>limit\<close> is zero, the first \<open>limit\<close> of them otherwise, so
  at most \<open>limit\<close>. The active bounds are the conforming bounds, intersected with the bounds
  of the subset when there is one. With \<open>limit = 1\<close> and a manifest in which some item passes
  the test, exactly one origin is submitted, and its item passes the test; it is the first
  such origin.
\<close>

theorem runInserts_submits_qualifying:
  fixes manifest :: "('b, 'sch) Manifest" and metadata :: "('b, 'sub) Metadata"
    and overlaps :: "'b \<Rightarrow> 'b \<Rightarrow> bool" and intersection :: "'b \<Rightarrow> 'b \<Rightarrow> 'b"
    and getBounds :: "'b \<Rightarrow> 'sub \<Rightarrow> 'b" and limit :: "64 word"
  defines "active \<equiv> active_bounds intersection getBounds metadata"
  defines "todo \<equiv> qualifying overlaps active manifest 0"
  defines "submitted \<equiv> runInserts overlaps intersection getBounds metadata manifest limit"
  shows "submitted = (if limit = 0 then todo else take (unat limit) todo) \<and>
         todo = filter (\<lambda>i. \<not> inserted (manifest ! i) \<and>
                            points (info (source (manifest ! i))) \<noteq> 0 \<and>
                            overlaps active (info_bounds (info (source (manifest ! i)))))
                  [0 ..< length manifest] \<and>
         active = (case subset metadata of
                     None \<Rightarrow> boundsConforming metadata
                   | Some sub \<Rightarrow>
                       intersection (getBounds (bounds metadata) sub) (boundsConforming metadata)) \<and>
         (limit \<noteq> 0 \<longrightarrow> length submitted \<le> unat limit) \<and>
         (limit = 1 \<longrightarrow> submitted = (if todo = [] then [] else [hd todo])) \<and>
         (limit = 1 \<and> (\<exists>i<length manifest. submittable overlaps active (manifest ! i)) \<longrightarrow>
            length submitted = 1 \<and>
            (\<exists>i<length manifest. submitted = [i] \<and> submittable overlaps active (manifest ! i)))"
proof -
  have eq: "submitted = (if limit = 0 then todo else take (unat limit) todo)"
    by (simp add: submitted_def todo_def active_def runInserts_def runInserts_loop_eq)
  have todo: "todo = filter (\<lambda>i. \<not> inserted (manifest ! i) \<and>
                            points (info (source (manifest ! i))) \<noteq> 0 \<and>
                            overlaps active (info_bounds (info (source (manifest ! i)))))
                  [0 ..< length manifest]"
    by (simp add: todo_def qualifying_def submittable_def)
  have act: "active = (case subset metadata of
                     None \<Rightarrow> boundsConforming metadata
                   | Some sub \<Rightarrow>
                       intersection (getBounds (bounds metadata) sub) (boundsConforming metadata))"
    by (simp add: active_def active_bounds_def split: option.split)
  have len: "limit \<noteq> 0 \<longrightarrow> length submitted \<le> unat limit"
    by (simp add: eq)
  have one: "limit = 1 \<longrightarrow> submitted = (if todo = [] then [] else [hd todo])"
    by (cases todo) (simp_all add: eq)
  have exactly: "length submitted = 1 \<and>
      (\<exists>i<length manifest. submitted = [i] \<and> submittable overlaps active (manifest ! i))"
    if l: "limit = 1" and q: "\<exists>i<length manifest. submittable overlaps active (manifest ! i)"
  proof -
    from q have "set todo \<noteq> {}" unfolding todo_def set_qualifying by blast
    then have ne: "todo \<noteq> []" by auto
    with one l have s: "submitted = [hd todo]" by simp
    from ne have "hd todo \<in> set todo" by simp
    then have "hd todo < length manifest \<and> submittable overlaps active (manifest ! hd todo)"
      unfolding todo_def set_qualifying by blast
    with s show ?thesis by simp
  qed
  from eq todo act len one exactly show ?thesis by blast
qed

lemma example_active:
  "active_bounds ivl_intersection ivl_getBounds example_metadata = (0, 10)"
  by (simp add: active_bounds_def example_metadata_def)

lemma example_todo: "qualifying ivl_overlaps (0, 10) example_manifest 0 = [1, 4]"
  by (simp add: qualifying_def example_manifest_def example_item_def submittable_def
      ivl_overlaps_def upt_conv_Cons)

theorem runInserts_submits_qualifying_witness:
  "(1::64 word) \<noteq> 0 \<and> (1::nat) < length example_manifest \<and>
   submittable ivl_overlaps (active_bounds ivl_intersection ivl_getBounds example_metadata)
     (example_manifest ! 1) \<and>
   runInserts ivl_overlaps ivl_intersection ivl_getBounds example_metadata example_manifest 1 = [1] \<and>
   length (runInserts ivl_overlaps ivl_intersection ivl_getBounds example_metadata
             example_manifest 1) = 1 \<and>
   runInserts ivl_overlaps ivl_intersection ivl_getBounds example_metadata example_manifest 0 = [1, 4]"
proof -
  have q: "submittable ivl_overlaps (active_bounds ivl_intersection ivl_getBounds example_metadata)
     (example_manifest ! 1)"
    by (simp add: example_active example_manifest_def example_item_def submittable_def
        ivl_overlaps_def)
  have l: "(1::nat) < length example_manifest" by (simp add: example_manifest_def)
  from q l show ?thesis
    using runInserts_submits_qualifying [of ivl_overlaps ivl_intersection ivl_getBounds
        example_metadata example_manifest 1]
      runInserts_submits_qualifying [of ivl_overlaps ivl_intersection ivl_getBounds
        example_metadata example_manifest 0]
    by (simp add: example_active example_todo)
qed

section \<open>Properties of the chunk\<close>

lemma toDir_toIntegral [simp]: "toDir (toIntegral d) = d"
  by (cases d) (simp_all add: toDir_def)


lemma set_dirs: "set dirs = UNIV"
proof -
  have "d \<in> set dirs" for d by (cases d) (simp_all add: dirs_def)
  then show ?thesis by blast
qed


lemma childAt_eq [simp]: "childAt c dir = m_childKeys c dir"
  by (simp add: childAt_def)

text \<open>The selection loop: what it returns, by induction on the octants still to visit.\<close>

lemma select_overflow_Cons:
  "select_overflow ovs (d # ds) (si, ss) =
     select_overflow ovs ds
       (case ovs d of None \<Rightarrow> (si, ss)
        | Some cur \<Rightarrow> if ss < length (block cur) then (d, length (block cur)) else (si, ss))"
  by (simp split: option.split)

lemma select_overflow_mono: "ss \<le> snd (select_overflow ovs ds (si, ss))"
proof (induction ds arbitrary: si ss)
  case Nil
  show ?case by simp
next
  case (Cons d ds)
  show ?case
  proof (cases "ovs d")
    case None
    with Cons [of ss si] show ?thesis by simp
  next
    case (Some cur)
    show ?thesis
    proof (cases "ss < length (block cur)")
      case True
      with Some Cons [of "length (block cur)" d] show ?thesis by simp
    next
      case False
      with Some Cons [of ss si] show ?thesis by simp
    qed
  qed
qed

lemma select_overflow_upper:
  "d \<in> set ds \<Longrightarrow> ovs d = Some ov \<Longrightarrow> length (block ov) \<le> snd (select_overflow ovs ds (si, ss))"
proof (induction ds arbitrary: si ss)
  case Nil
  then show ?case by simp
next
  case (Cons e ds)
  show ?case
  proof (cases "d = e")
    case True
    show ?thesis
    proof (cases "ss < length (block ov)")
      case True
      with \<open>d = e\<close> Cons.prems select_overflow_mono [of "length (block ov)" ovs ds e]
      show ?thesis by simp
    next
      case False
      with \<open>d = e\<close> Cons.prems select_overflow_mono [of ss ovs ds si]
      show ?thesis by simp
    qed
  next
    case False
    with Cons.prems have "d \<in> set ds" by simp
    from Cons.IH [OF this Cons.prems(2)] show ?thesis
      unfolding select_overflow_Cons by (simp split: option.split)
  qed
qed

lemma select_overflow_keep:
  "snd (select_overflow ovs ds (si, ss)) = ss \<Longrightarrow> fst (select_overflow ovs ds (si, ss)) = si"
proof (induction ds arbitrary: si ss)
  case Nil
  then show ?case by simp
next
  case (Cons e ds)
  show ?case
  proof (cases "\<exists>cur. ovs e = Some cur \<and> ss < length (block cur)")
    case True
    then obtain cur where cur: "ovs e = Some cur" "ss < length (block cur)" by blast
    with select_overflow_mono [of "length (block cur)" ovs ds e] Cons.prems
    show ?thesis by simp
  next
    case False
    then have "select_overflow ovs (e # ds) (si, ss) = select_overflow ovs ds (si, ss)"
      by (cases "ovs e") auto
    with Cons show ?thesis by simp
  qed
qed

lemma select_overflow_found:
  "ss < snd (select_overflow ovs ds (si, ss)) \<Longrightarrow>
   fst (select_overflow ovs ds (si, ss)) \<in> set ds \<and>
   (\<exists>ov. ovs (fst (select_overflow ovs ds (si, ss))) = Some ov \<and>
         length (block ov) = snd (select_overflow ovs ds (si, ss)))"
proof (induction ds arbitrary: si ss)
  case Nil
  then show ?case by simp
next
  case (Cons e ds)
  show ?case
  proof (cases "\<exists>cur. ovs e = Some cur \<and> ss < length (block cur)")
    case True
    then obtain cur where cur: "ovs e = Some cur" "ss < length (block cur)" by blast
    then have eq: "select_overflow ovs (e # ds) (si, ss) =
        select_overflow ovs ds (e, length (block cur))" by simp
    show ?thesis
    proof (cases "length (block cur) < snd (select_overflow ovs ds (e, length (block cur)))")
      case True
      from Cons.IH [OF this] show ?thesis unfolding eq by simp
    next
      case False
      with select_overflow_mono [of "length (block cur)" ovs ds e]
      have s: "snd (select_overflow ovs ds (e, length (block cur))) = length (block cur)" by simp
      from select_overflow_keep [OF this] s cur show ?thesis unfolding eq by simp
    qed
  next
    case False
    then have eq: "select_overflow ovs (e # ds) (si, ss) = select_overflow ovs ds (si, ss)"
      by (cases "ovs e") auto
    from Cons.prems have "ss < snd (select_overflow ovs ds (si, ss))" unfolding eq .
    from Cons.IH [OF this] show ?thesis unfolding eq by simp
  qed
qed


lemma selected_upper:
  "m_overflows c d = Some ov \<Longrightarrow>
   length (block ov) \<le> snd (select_overflow (m_overflows c) dirs (Dir0, 0))"
  using select_overflow_upper [of d dirs "m_overflows c" ov Dir0 0] by (simp add: set_dirs)

lemma selected_present:
  assumes "0 < snd (select_overflow (m_overflows c) dirs (Dir0, 0))"
  shows "\<exists>ov. m_overflows c (fst (select_overflow (m_overflows c) dirs (Dir0, 0))) = Some ov \<and>
           length (block ov) = snd (select_overflow (m_overflows c) dirs (Dir0, 0))"
  using select_overflow_found [OF assms] by blast




lemma maybeOverflow_cases:
  "maybeOverflow X c =
     (if of_nat (length (m_gridBlock c)) + m_overflowCount c < maxNodeSize (internal (m_metadata c))
      then Inr (c, [])
      else if snd (select_overflow (m_overflows c) dirs (Dir0, 0))
                < unat (minNodeSize (internal (m_metadata c)))
      then Inr (c, [])
      else doOverflow X c (fst (select_overflow (m_overflows c) dirs (Dir0, 0))))"
  by (simp add: maybeOverflow_def Let_def split: prod.split)

lemma doOverflow_present:
  assumes "m_overflows c dir = Some active"
  shows "doOverflow X c dir =
     Inr (c\<lparr>m_overflows := (m_overflows c)(dir := None),
            m_overflowCount := m_overflowCount c - of_nat (length (block active))\<rparr>,
          map (\<lambda>entry. \<lparr>ci_voxel = voxel entry,
                          ci_key = step X (key entry) (point (voxel entry)),
                          ci_chunkKey = m_childKeys c dir\<rparr>)
              (list active))"
  using assms by (simp add: doOverflow_def)

text \<open>
  Claim C3. When the bucket of octant \<open>dir\<close> is present, \<open>doOverflow\<close> returns with that
  bucket absent and \<open>m_overflowCount\<close> lowered by the size of the bucket's block (in
  \<open>uint64_t\<close>). It has called \<open>cache.insert\<close> once for each entry of the bucket's list, in the
  order of the list, with the entry's voxel, the entry's key advanced by \<open>step\<close> towards
  the voxel's point, and the key of the child at \<open>dir\<close>. The grid, its block and the
  buckets of the other octants are as before.
\<close>

theorem doOverflow_detaches_bucket:
  assumes "m_overflows c dir = Some active"
  shows "\<exists>c'. doOverflow X c dir =
           Inr (c', map (\<lambda>entry. \<lparr>ci_voxel = voxel entry,
                                   ci_key = step X (key entry) (point (voxel entry)),
                                   ci_chunkKey = childAt c dir\<rparr>)
                        (list active)) \<and>
           m_overflows c' dir = None \<and>
           m_overflowCount c' = m_overflowCount c - of_nat (length (block active)) \<and>
           (\<forall>d. d \<noteq> dir \<longrightarrow> m_overflows c' d = m_overflows c d) \<and>
           m_grid c' = m_grid c \<and> m_gridBlock c' = m_gridBlock c \<and>
           m_childKeys c' = m_childKeys c \<and> m_chunkKey c' = m_chunkKey c \<and>
           m_metadata c' = m_metadata c \<and> m_span c' = m_span c"
  using doOverflow_present [OF assms, of X] by simp

text \<open>
  \<open>maybeOverflow\<close> is private and its only call is in \<open>insertOverflow\<close>, on the chunk in which
  an entry has just been appended to a bucket: that chunk has a present bucket that is not
  empty.
\<close>

lemma insertOverflow_passes_nonempty_bucket:
  "\<exists>d ov'. m_overflows (c\<lparr>m_overflows := (m_overflows c)(dir \<mapsto> Overflow_insert ov v k),
                              m_overflowCount := m_overflowCount c + 1\<rparr>) d = Some ov' \<and>
            block ov' \<noteq> []"
  by (intro exI [of _ dir] exI [of _ "Overflow_insert ov v k"]) (simp add: Overflow_insert_def)


lemma maybeOverflow_total:
  assumes "m_overflows c d = Some ov" and "block ov \<noteq> []"
  shows "\<exists>c' calls. maybeOverflow X c = Inr (c', calls) \<and>
           m_grid c' = m_grid c \<and> m_gridBlock c' = m_gridBlock c"
proof -
  let ?sel = "select_overflow (m_overflows c) dirs (Dir0, 0)"
  from assms selected_upper [OF assms(1)] have pos: "0 < snd ?sel"
    by (cases "block ov") simp_all
  from selected_present [OF pos] obtain active where
    a: "m_overflows c (fst ?sel) = Some active" by blast
  show ?thesis
    by (simp add: maybeOverflow_cases doOverflow_present [OF a])
qed

lemma voxel_eta: "\<lparr>point = point v, data = data v\<rparr> = (v :: ('p, 'd) Voxel)"
  by simp

lemma insertOverflow_present:
  assumes deep: "\<not> ck_depth (m_chunkKey c) < getSharedDepth X (m_metadata c)"
    and ov: "m_overflows c (getDirection X (mid X (ck_bounds (m_chunkKey c))) (point v)) = Some ov"
  shows "insertOverflow X c v k =
     (let c1 = c\<lparr>m_overflows := (m_overflows c)
                    (getDirection X (mid X (ck_bounds (m_chunkKey c))) (point v) \<mapsto>
                       ov\<lparr>block := block ov @ [data v],
                          list := list ov @ [\<lparr>voxel = v, key = k\<rparr>]\<rparr>),
                m_overflowCount := m_overflowCount c + 1\<rparr>
      in if minNodeSize (internal (m_metadata c)) \<le> m_overflowCount c + 1
         then (case maybeOverflow X c1 of
                 Inl fault \<Rightarrow> Inl fault
               | Inr (c2, calls) \<Rightarrow> Inr (True, c2, calls))
         else Inr (True, c1, []))"
  using assms by (simp add: insertOverflow_def Overflow_insert_def Let_def voxel_eta)

lemma insertOverflow_total:
  "\<exists>flag c2 calls. insertOverflow X c v k = Inr (flag, c2, calls) \<and>
     m_grid c2 = m_grid c \<and> m_gridBlock c2 = m_gridBlock c"
proof (cases "ck_depth (m_chunkKey c) < getSharedDepth X (m_metadata c)")
  case True
  then show ?thesis by (auto simp: insertOverflow_def)
next
  case False
  let ?dir = "getDirection X (mid X (ck_bounds (m_chunkKey c))) (point v)"
  show ?thesis
  proof (cases "m_overflows c ?dir")
    case None
    with False show ?thesis by (auto simp: insertOverflow_def)
  next
    case (Some ov)
    let ?ov1 = "ov\<lparr>block := block ov @ [data v], list := list ov @ [\<lparr>voxel = v, key = k\<rparr>]\<rparr>"
    let ?c1 = "c\<lparr>m_overflows := (m_overflows c)(?dir \<mapsto> ?ov1),
                  m_overflowCount := m_overflowCount c + 1\<rparr>"
    have p: "m_overflows ?c1 ?dir = Some ?ov1" by simp
    have ne: "block ?ov1 \<noteq> []" by simp
    from maybeOverflow_total [OF p ne, of X] obtain c' calls where
      m: "maybeOverflow X ?c1 = Inr (c', calls)" "m_grid c' = m_grid c" "m_gridBlock c' = m_gridBlock c"
      by auto
    show ?thesis
      unfolding insertOverflow_present [OF False Some] Let_def using m by auto
  qed
qed

text \<open>
  Claim C5. \<open>insertOverflow\<close> returns false and leaves the chunk as it is when the depth of
  the chunk's key is below the shared depth, and also when the octant of the voxel's
  point, taken from the midpoint of the chunk's bounds, has no bucket. Otherwise it
  returns true: the bucket of that octant has got the voxel and the key as its last
  entry and the payload as the last slot of its block, \<open>m_overflowCount\<close> is one more, and
  if the new count is at least the minimum node size the chunk returned is the one
  \<open>maybeOverflow\<close> leaves (with the calls it made), else it is this chunk.
\<close>

theorem insertOverflow_routes:
  fixes c :: "('p, 'b, 'd, 'sub) Chunk" and X :: "('p, 'b, 'sub, 'r) Externals"
    and v :: "('p, 'd) Voxel" and k :: "'b Key"
  defines "dir \<equiv> getDirection X (mid X (ck_bounds (m_chunkKey c))) (point v)"
  shows "(ck_depth (m_chunkKey c) < getSharedDepth X (m_metadata c)
            \<longrightarrow> insertOverflow X c v k = Inr (False, c, [])) \<and>
         (m_overflows c dir = None \<longrightarrow> insertOverflow X c v k = Inr (False, c, [])) \<and>
         (\<forall>ov. \<not> ck_depth (m_chunkKey c) < getSharedDepth X (m_metadata c) \<and>
                m_overflows c dir = Some ov \<longrightarrow>
            (\<exists>c2 calls. insertOverflow X c v k = Inr (True, c2, calls) \<and>
               (let c1 = c\<lparr>m_overflows := (m_overflows c)
                              (dir \<mapsto> ov\<lparr>block := block ov @ [data v],
                                           list := list ov @ [\<lparr>voxel = v, key = k\<rparr>]\<rparr>),
                          m_overflowCount := m_overflowCount c + 1\<rparr>
                in if minNodeSize (internal (m_metadata c)) \<le> m_overflowCount c + 1
                   then maybeOverflow X c1 = Inr (c2, calls)
                   else c2 = c1 \<and> calls = [])))"
proof -
  have a: "ck_depth (m_chunkKey c) < getSharedDepth X (m_metadata c)
            \<longrightarrow> insertOverflow X c v k = Inr (False, c, [])"
    by (simp add: insertOverflow_def)
  have b: "m_overflows c dir = None \<longrightarrow> insertOverflow X c v k = Inr (False, c, [])"
    by (simp add: insertOverflow_def dir_def)
  have c: "\<exists>c2 calls. insertOverflow X c v k = Inr (True, c2, calls) \<and>
               (let c1 = c\<lparr>m_overflows := (m_overflows c)
                              (dir \<mapsto> ov\<lparr>block := block ov @ [data v],
                                           list := list ov @ [\<lparr>voxel = v, key = k\<rparr>]\<rparr>),
                          m_overflowCount := m_overflowCount c + 1\<rparr>
                in if minNodeSize (internal (m_metadata c)) \<le> m_overflowCount c + 1
                   then maybeOverflow X c1 = Inr (c2, calls)
                   else c2 = c1 \<and> calls = [])"
    if deep: "\<not> ck_depth (m_chunkKey c) < getSharedDepth X (m_metadata c)"
      and ov: "m_overflows c dir = Some ov" for ov
  proof -
    let ?ov1 = "ov\<lparr>block := block ov @ [data v], list := list ov @ [\<lparr>voxel = v, key = k\<rparr>]\<rparr>"
    let ?c1 = "c\<lparr>m_overflows := (m_overflows c)(dir \<mapsto> ?ov1),
                  m_overflowCount := m_overflowCount c + 1\<rparr>"
    have p: "m_overflows ?c1 dir = Some ?ov1" by simp
    have ne: "block ?ov1 \<noteq> []" by simp
    from maybeOverflow_total [OF p ne, of X] obtain c' calls where
      m: "maybeOverflow X ?c1 = Inr (c', calls)" by auto
    from ov have ov': "m_overflows c (getDirection X (mid X (ck_bounds (m_chunkKey c))) (point v))
        = Some ov" by (simp add: dir_def)
    show ?thesis
      unfolding insertOverflow_present [OF deep ov'] Let_def dir_def [symmetric] using m by simp
  qed
  from a b c show ?thesis by blast
qed

text \<open>
  With a span that is not zero and below \<open>2^32\<close>, the index that \<open>insert\<close> computes lies within
  a grid of \<open>span * span\<close> tubes, as the constructor allocates it.
\<close>

lemma grid_index_in_range:
  fixes s x y :: "64 word"
  assumes "s \<noteq> 0" and "s < 2 ^ 32"
  shows "unat ((y mod s) * s + (x mod s)) < unat (s * s)"
proof -
  let ?n = "unat s"
  from assms(1) have pos: "0 < ?n" by (simp add: unat_gt_0)
  from assms(2) have small: "?n < 2 ^ 32" by (simp add: word_less_nat_alt)
  have a: "unat (y mod s) < ?n" using pos by (simp add: unat_mod)
  have b: "unat (x mod s) < ?n" using pos by (simp add: unat_mod)
  from small have "?n * ?n < 2 ^ 32 * 2 ^ 32" by (intro mult_strict_mono) simp_all
  then have nn: "?n * ?n < 2 ^ LENGTH(64)" by simp
  then have ss: "unat (s * s) = ?n * ?n" using unat_mult_lem [of s s] by blast
  from a have "Suc (unat (y mod s)) \<le> ?n" by simp
  then have "Suc (unat (y mod s)) * ?n \<le> ?n * ?n" by (rule mult_le_mono1)
  with b have p: "unat (y mod s) * ?n + unat (x mod s) < ?n * ?n" by simp
  with nn have m: "unat (y mod s) * ?n < 2 ^ LENGTH(64)" by simp
  then have pm: "unat ((y mod s) * s) = unat (y mod s) * ?n"
    using unat_mult_lem [of "y mod s" s] by blast
  from p nn have "unat ((y mod s) * s) + unat (x mod s) < 2 ^ LENGTH(64)" by (simp add: pm)
  then have "unat ((y mod s) * s + (x mod s)) = unat ((y mod s) * s) + unat (x mod s)"
    using unat_add_lem [of "(y mod s) * s" "x mod s"] by blast
  with p pm ss show ?thesis by simp
qed

lemma Chunk_ctor_index_in_range:
  fixes X :: "('p, 'b, 'sub, 'r) Externals" and m :: "('b, 'sub) Metadata"
    and ck :: "'b ChunkKey" and h :: Hierarchy
  defines "c \<equiv> (Chunk_ctor X m ck h :: ('p, 'b, 'd, 'sub) Chunk)"
  assumes "span m \<noteq> 0" and "span m < 2 ^ 32"
  shows "unat ((pos_y (key_position k) mod m_span c) * m_span c
               + (pos_x (key_position k) mod m_span c)) < length (m_grid c)"
  using grid_index_in_range [OF assms(2,3)] by (simp add: c_def Chunk_ctor_def Let_def)

text \<open>
  Claim C1, as the code has it. Let the cell that \<open>Chunk::insert\<close> looks at, the tube at
  \<open>(pos.y mod span) * span + (pos.x mod span)\<close> and in it the entry at \<open>pos.z\<close> (as the
  \<open>uint32_t\<close> key of the tube's map), hold a resident voxel. The distances compared are the
  squared distances to the midpoint of the bounds of the key that comes with the voxel
  (\<open>key.bounds().mid()\<close>), not of the chunk's bounds. If the incoming voxel is strictly
  closer, point and payload are exchanged in place: the resident's entry of the tube gets
  the incoming point, the resident's slot of the grid block gets the incoming payload,
  and the voxel handed on is the old resident. Otherwise, also on equal distances,
  nothing is exchanged and the chunk is as it was. No other cell, no other slot and no
  other field of the chunk changes. The result of \<open>insert\<close> is the result of
  \<open>insertOverflow\<close> of this very chunk, after the exchange, on the voxel that lost, together
  with that voxel; this call returns and leaves the grid and its block alone. The voxel
  left in the cell is at most as far from the midpoint as the one handed on.
\<close>

theorem insert_keeps_nearest:
  fixes c :: "('p, 'b, 'd, 'sub) Chunk" and X :: "('p, 'b, 'sub, 'r::linorder) Externals"
    and v :: "('p, 'd) Voxel" and k :: "'b Key" and r :: "'p GridVoxel"
  defines "i \<equiv> unat ((pos_y (key_position k) mod m_span c) * m_span c
                      + (pos_x (key_position k) mod m_span c))"
  defines "zk \<equiv> (ucast (pos_z (key_position k)) :: 32 word)"
  defines "centre \<equiv> mid X (key_bounds k)"
  defines "resident \<equiv> \<lparr>point = gv_point r, data = m_gridBlock c ! gv_slot r\<rparr>"
  defines "closer \<equiv> sqDist3d X (point v) centre < sqDist3d X (point resident) centre"
  defines "winner \<equiv> if closer then v else resident"
  defines "loser \<equiv> if closer then resident else v"
  defines "c1 \<equiv> if closer
                then c\<lparr>m_grid := (m_grid c)[i := (m_grid c ! i)(zk \<mapsto> r\<lparr>gv_point := point v\<rparr>)],
                       m_gridBlock := (m_gridBlock c)[gv_slot r := data v]\<rparr>
                else c"
  assumes span: "m_span c \<noteq> 0" and rng: "i < length (m_grid c)"
    and res: "(m_grid c ! i) zk = Some r" and slot: "gv_slot r < length (m_gridBlock c)"
  shows "insert_voxel X c v k =
           (case insertOverflow X c1 loser k of
              Inl fault \<Rightarrow> Inl fault
            | Inr (flag, c2, calls) \<Rightarrow> Inr (flag, c2, loser, calls)) \<and>
         (\<exists>flag c2 calls.
            insertOverflow X c1 loser k = Inr (flag, c2, calls) \<and>
            insert_voxel X c v k = Inr (flag, c2, loser, calls) \<and>
            m_grid c2 = m_grid c1 \<and> m_gridBlock c2 = m_gridBlock c1) \<and>
         (m_grid c1 ! i) zk = Some (r\<lparr>gv_point := point winner\<rparr>) \<and>
         m_gridBlock c1 ! gv_slot r = data winner \<and>
         length (m_grid c1) = length (m_grid c) \<and>
         length (m_gridBlock c1) = length (m_gridBlock c) \<and>
         (\<forall>j z. j \<noteq> i \<or> z \<noteq> zk \<longrightarrow> (m_grid c1 ! j) z = (m_grid c ! j) z) \<and>
         (\<forall>s. s \<noteq> gv_slot r \<longrightarrow> m_gridBlock c1 ! s = m_gridBlock c ! s) \<and>
         c1\<lparr>m_grid := m_grid c, m_gridBlock := m_gridBlock c\<rparr> = c \<and>
         (\<not> closer \<longrightarrow> c1 = c) \<and>
         sqDist3d X (point winner) centre \<le> sqDist3d X (point loser) centre"
proof -
  let ?tube = "m_grid c ! i"
  from insertOverflow_total [of X c1 loser k] obtain flag c2 calls where
    io: "insertOverflow X c1 loser k = Inr (flag, c2, calls)"
    and g2: "m_grid c2 = m_grid c1" and b2: "m_gridBlock c2 = m_gridBlock c1" by blast
  have run: "insert_voxel X c v k = Inr (flag, c2, loser, calls)"
  proof (cases closer)
    case True
    with io have "insertOverflow X
        (c\<lparr>m_grid := (m_grid c)[i := ?tube(zk \<mapsto> r\<lparr>gv_point := point v\<rparr>)],
           m_gridBlock := (m_gridBlock c)[gv_slot r := data v]\<rparr>)
        \<lparr>point = gv_point r, data = m_gridBlock c ! gv_slot r\<rparr> k = Inr (flag, c2, calls)"
      by (simp add: loser_def resident_def c1_def)
    with True span rng res show ?thesis
      by (simp add: insert_voxel_def Let_def i_def [symmetric] zk_def [symmetric]
          centre_def [symmetric] closer_def resident_def loser_def not_le)
  next
    case False
    with io have "insertOverflow X c v k = Inr (flag, c2, calls)"
      by (simp add: loser_def c1_def)
    with False span rng res show ?thesis
      by (simp add: insert_voxel_def Let_def i_def [symmetric] zk_def [symmetric]
          centre_def [symmetric] closer_def resident_def loser_def not_le)
  qed
  have lift: "insert_voxel X c v k =
           (case insertOverflow X c1 loser k of
              Inl fault \<Rightarrow> Inl fault
            | Inr (flag, c2, calls) \<Rightarrow> Inr (flag, c2, loser, calls))"
    by (simp add: run io)
  have ex: "\<exists>flag c2 calls.
            insertOverflow X c1 loser k = Inr (flag, c2, calls) \<and>
            insert_voxel X c v k = Inr (flag, c2, loser, calls) \<and>
            m_grid c2 = m_grid c1 \<and> m_gridBlock c2 = m_gridBlock c1"
    using io run g2 b2 by blast
  have cell: "(m_grid c1 ! i) zk = Some (r\<lparr>gv_point := point winner\<rparr>)"
    using rng res by (simp add: c1_def winner_def resident_def)
  have payload: "m_gridBlock c1 ! gv_slot r = data winner"
    using slot by (simp add: c1_def winner_def resident_def)
  have len: "length (m_grid c1) = length (m_grid c)"
    "length (m_gridBlock c1) = length (m_gridBlock c)"
    by (simp_all add: c1_def)
  have cells: "(m_grid c1 ! j) z = (m_grid c ! j) z" if "j \<noteq> i \<or> z \<noteq> zk" for j z
  proof (cases "j = i")
    case True
    with that have "z \<noteq> zk" by simp
    with True rng show ?thesis by (simp add: c1_def)
  next
    case False
    then show ?thesis by (simp add: c1_def)
  qed
  have slots: "m_gridBlock c1 ! s = m_gridBlock c ! s" if "s \<noteq> gv_slot r" for s
    using that by (simp add: c1_def)
  have rest: "c1\<lparr>m_grid := m_grid c, m_gridBlock := m_gridBlock c\<rparr> = c"
    by (simp add: c1_def)
  have same: "\<not> closer \<longrightarrow> c1 = c" by (simp add: c1_def)
  have dist: "sqDist3d X (point winner) centre \<le> sqDist3d X (point loser) centre"
    by (auto simp: winner_def loser_def closer_def)
  from lift ex cell payload len cells slots rest same dist show ?thesis by blast
qed

lemma save_count_sum:
  "save_count os np =
     np + sum_list (map (\<lambda>ob. case ob of None \<Rightarrow> 0 | Some ov \<Rightarrow> of_nat (length (block ov))) os)"
  by (induction os np rule: save_count.induct) (simp_all add: add.assoc)

lemma save_table_concat:
  "save_table os table =
     table @ concat (map (\<lambda>ob. case ob of None \<Rightarrow> [] | Some ov \<Rightarrow> block ov) os)"
  by (induction os table rule: save_table.induct) simp_all

lemma save_count_length:
  "save_count os (of_nat (length table)) = of_nat (length (save_table os table))"
  by (induction os table rule: save_table.induct) simp_all

text \<open>
  Claim C6. \<open>save\<close> returns the size of the grid block plus the sizes of the blocks of the
  present buckets, which is the number of points of the table it writes. The table is
  the grid block followed by the blocks of the present buckets in the order of the
  octants 0 to 7. The codec argument of \<open>io::write\<close> is the \<open>dataType\<close> of the metadata,
  and the file name is \<open>toString()\<close> of the chunk's key followed by the postfix for
  its depth.
\<close>

theorem save_writes_grid_then_buckets:
  "fst (save X c) =
     of_nat (length (m_gridBlock c)) +
     sum_list (map (\<lambda>d. case m_overflows c d of
                            None \<Rightarrow> 0 | Some ov \<Rightarrow> of_nat (length (block ov))) dirs) \<and>
   w_table (snd (save X c)) =
     m_gridBlock c @
     concat (map (\<lambda>d. case m_overflows c d of None \<Rightarrow> [] | Some ov \<Rightarrow> block ov) dirs) \<and>
   fst (save X c) = of_nat (length (w_table (snd (save X c)))) \<and>
   w_dataType (snd (save X c)) = dataType (m_metadata c) \<and>
   w_filename (snd (save X c)) =
     toString X (m_chunkKey c) @ getPostfix X (m_metadata c) (ck_depth (m_chunkKey c)) \<and>
   dirs = [Dir0, Dir1, Dir2, Dir3, Dir4, Dir5, Dir6, Dir7]"
proof -
  have a: "fst (save X c) =
     of_nat (length (m_gridBlock c)) +
     sum_list (map (\<lambda>d. case m_overflows c d of
                            None \<Rightarrow> 0 | Some ov \<Rightarrow> of_nat (length (block ov))) dirs)"
    by (simp add: save_def Let_def save_count_sum comp_def)
  have b: "w_table (snd (save X c)) =
     m_gridBlock c @
     concat (map (\<lambda>d. case m_overflows c d of None \<Rightarrow> [] | Some ov \<Rightarrow> block ov) dirs)"
    by (simp add: save_def Let_def save_table_concat comp_def)
  have c: "fst (save X c) = of_nat (length (w_table (snd (save X c))))"
    using save_count_length [of "map (m_overflows c) dirs" "m_gridBlock c"]
    by (simp add: save_def Let_def)
  have d: "w_dataType (snd (save X c)) = dataType (m_metadata c)"
    by (simp add: save_def Let_def)
  have e: "w_filename (snd (save X c)) =
     toString X (m_chunkKey c) @ getPostfix X (m_metadata c) (ck_depth (m_chunkKey c))"
    by (simp add: save_def Let_def)
  from a b c d e show ?thesis by (simp add: dirs_def)
qed

lemma Chunk_ctor_overflows:
  "m_overflows (Chunk_ctor X m ck h) d =
     (if hierarchy_get h (dxyz (getStep X ck d)) = 0
      then Some (Overflow_ctor (getStep X ck d)) else None)"
  by (simp add: Chunk_ctor_def Let_def)

lemma Chunk_ctor_childKeys [simp]: "m_childKeys (Chunk_ctor X m ck h) d = getStep X ck d"
  by (simp add: Chunk_ctor_def Let_def)

text \<open>
  Claim C4, as the code has it. Right after construction the bucket of octant \<open>d\<close> is
  present exactly when \<open>hierarchy::get\<close> is zero at the \<open>dxyz\<close> of the child key of \<open>d\<close>: the
  hierarchy has no entry there, or an entry whose count is zero. So an absent bucket
  means that the hierarchy has an entry there, with a count other than zero, and no
  entry means that the bucket is present.
\<close>

theorem Chunk_ctor_overflow_iff_no_points:
  fixes X :: "('p, 'b, 'sub, 'r) Externals" and m :: "('b, 'sub) Metadata"
    and ck :: "'b ChunkKey" and h :: Hierarchy
  defines "c \<equiv> (Chunk_ctor X m ck h :: ('p, 'b, 'd, 'sub) Chunk)"
  shows "(m_overflows c d \<noteq> None \<longleftrightarrow> hierarchy_get h (dxyz (childAt c d)) = 0) \<and>
         (m_overflows c d \<noteq> None \<longleftrightarrow>
            h (dxyz (childAt c d)) = None \<or> h (dxyz (childAt c d)) = Some 0) \<and>
         (m_overflows c d = None \<longrightarrow> (\<exists>np. h (dxyz (childAt c d)) = Some np \<and> np \<noteq> 0)) \<and>
         (h (dxyz (childAt c d)) = None \<longrightarrow> m_overflows c d \<noteq> None) \<and>
         childAt c d = getStep X ck d"
  unfolding c_def
  by (cases "h (dxyz (getStep X ck d))")
    (simp_all add: Chunk_ctor_overflows hierarchy_get_def)

text \<open>
  Claim C7, as the code has it. The grid allocated by the constructor is a vector of
  \<open>span * span\<close> empty tubes, the product taken in \<open>uint64_t\<close>, where \<open>span\<close> is the \<open>span\<close> of
  the metadata; below \<open>2^32\<close> the product does not wrap. Neither the chunk's key nor the
  hierarchy has a part in it: the chunks of a build have grids of one side length at every
  depth.
\<close>

theorem Chunk_ctor_grid_fixed_span:
  fixes X :: "('p, 'b, 'sub, 'r) Externals" and m :: "('b, 'sub) Metadata"
    and ck ck' :: "'b ChunkKey" and h h' :: Hierarchy
  defines "c \<equiv> (Chunk_ctor X m ck h :: ('p, 'b, 'd, 'sub) Chunk)"
  defines "c' \<equiv> (Chunk_ctor X m ck' h' :: ('p, 'b, 'd, 'sub) Chunk)"
  shows "length (m_grid c) = unat (span m * span m) \<and>
   m_span c = span m \<and>
   (\<forall>tube \<in> set (m_grid c). tube = Map.empty) \<and>
   (span m < 2 ^ 32 \<longrightarrow> length (m_grid c) = unat (span m) * unat (span m)) \<and>
   length (m_grid c') = length (m_grid c)"
proof -
  have "unat (span m * span m) = unat (span m) * unat (span m)" if "span m < 2 ^ 32"
  proof -
    from that have "unat (span m) < 2 ^ 32" by (simp add: word_less_nat_alt)
    then have "unat (span m) * unat (span m) < 2 ^ 32 * 2 ^ 32"
      by (intro mult_strict_mono) simp_all
    then have "unat (span m) * unat (span m) < 2 ^ LENGTH(64)" by simp
    then show ?thesis using unat_mult_lem [of "span m" "span m"] by blast
  qed
  then show ?thesis by (simp add: c_def c'_def Chunk_ctor_def Let_def)
qed

section \<open>The chunk on concrete points\<close>

lemma replicate4: "replicate 4 a = [a, a, a, a]"
  by (simp add: numeral_eq_Suc)

lemma ex0_fields:
  "m_span ex_chunk0 = 2" "m_grid ex_chunk0 = [Map.empty, Map.empty, Map.empty, Map.empty]"
  "m_gridBlock ex_chunk0 = []" "m_overflowCount ex_chunk0 = 0"
  "m_metadata ex_chunk0 = ex_md" "m_chunkKey ex_chunk0 = ex_ck"
  "m_overflows ex_chunk0 d = Some (Overflow_ctor (ex_getStep ex_ck d))"
  "m_childKeys ex_chunk0 d = ex_getStep ex_ck d"
  by (simp_all add: ex_chunk0_def Chunk_ctor_def Let_def ex_md_def ex_X_def hierarchy_get_def
      replicate4)

lemma ex1_run:
  "insert_voxel ex_X ex_chunk0 ex_u ex_key =
     Inr (True, ex_chunk0\<lparr>m_grid := [[0 \<mapsto> \<lparr>gv_point = (3, 3, 3), gv_slot = 0\<rparr>],
                                        Map.empty, Map.empty, Map.empty],
                          m_gridBlock := [''u'']\<rparr>, ex_u, [])"
  by (simp add: insert_voxel_def Let_def ex0_fields ex_key_def ex_u_def)

lemma ex_dirs_eval:
  "ex_mid ((0, 0, 0), (8, 8, 8)) = (4, 4, 4)" "ex_mid ((0, 0, 0), (4, 4, 4)) = (2, 2, 2)"
  "ex_getDirection (4, 4, 4) (3, 3, 3) = Dir0" "ex_getDirection (4, 4, 4) (3, 3, 2) = Dir0"
  "ex_sqDist3d (2, 2, 2) (2, 2, 2) = 0" "ex_sqDist3d (3, 3, 3) (2, 2, 2) = 3"
  "ex_sqDist3d (3, 3, 2) (2, 2, 2) = 2"
  "ex_sqDist3d (3, 3, 2) (4, 4, 4) = 6" "ex_sqDist3d (2, 2, 2) (4, 4, 4) = 12"
  by (simp_all add: ex_mid_def ex_getDirection_def ex_sqDist3d_def toDir_def)

lemma word_2_le_1: "\<not> (2::64 word) \<le> 1"
  by (simp add: word_le_nat_alt)

lemma ex_X_fields:
  "mid ex_X = ex_mid" "sqDist3d ex_X = ex_sqDist3d" "getDirection ex_X = ex_getDirection"
  "getSharedDepth ex_X m = 0" "step ex_X = ex_step" "getStep ex_X = ex_getStep"
  by (simp_all add: ex_X_def)

lemma ex_chunk1_eq:
  "ex_chunk1 = ex_chunk0\<lparr>m_grid := [[0 \<mapsto> \<lparr>gv_point = (3, 3, 3), gv_slot = 0\<rparr>],
                                       Map.empty, Map.empty, Map.empty],
                         m_gridBlock := [''u'']\<rparr>"
  by (simp add: ex_chunk1_def chunk_of_def ex1_run)

lemma ex2_run:
  "insert_voxel ex_X ex_chunk1 ex_t ex_key =
     Inr (True, ex_chunk0\<lparr>m_grid := [[0 \<mapsto> \<lparr>gv_point = (2, 2, 2), gv_slot = 0\<rparr>],
                                        Map.empty, Map.empty, Map.empty],
                          m_gridBlock := [''t''],
                          m_overflows := (m_overflows ex_chunk0)(Dir0 \<mapsto> ex_bucket1),
                          m_overflowCount := 1\<rparr>, ex_u, [])"
  by (simp add: insert_voxel_def insertOverflow_def Overflow_insert_def Overflow_ctor_def Let_def
      ex_chunk1_eq ex0_fields ex_key_def ex_u_def ex_t_def ex_X_fields ex_dirs_eval ex_ck_def
      ex_md_def ex_bucket1_def word_2_le_1)

lemma ex_chunk2_eq:
  "ex_chunk2 = ex_chunk0\<lparr>m_grid := [[0 \<mapsto> \<lparr>gv_point = (2, 2, 2), gv_slot = 0\<rparr>],
                                        Map.empty, Map.empty, Map.empty],
                          m_gridBlock := [''t''],
                          m_overflows := (m_overflows ex_chunk0)(Dir0 \<mapsto> ex_bucket1),
                          m_overflowCount := 1\<rparr>"
  by (simp add: ex_chunk2_def chunk_of_def ex2_run)

lemma ex_full_fields:
  "m_overflows ex_chunk_full Dir0 = Some ex_bucket2"
  "d \<noteq> Dir0 \<Longrightarrow> m_overflows ex_chunk_full d = Some (Overflow_ctor (ex_getStep ex_ck d))"
  "m_gridBlock ex_chunk_full = [''t'']" "m_overflowCount ex_chunk_full = 2"
  "m_metadata ex_chunk_full = ex_md" "m_childKeys ex_chunk_full d = ex_getStep ex_ck d"
  "m_chunkKey ex_chunk_full = ex_ck"
  by (simp_all add: ex_chunk_full_def ex_chunk2_eq ex0_fields)

lemma ex_full_select:
  "select_overflow (m_overflows ex_chunk_full) dirs (Dir0, 0) = (Dir0, 2)"
  by (simp add: dirs_def ex_full_fields ex_bucket2_def Overflow_ctor_def)


lemma ex_full_doOverflow: "doOverflow ex_X ex_chunk_full Dir0 = Inr (ex_chunk3, ex_calls)"
  by (simp add: doOverflow_def Let_def ex_full_fields ex_chunk3_def ex_calls_def ex_bucket2_def
      ex_X_fields ex_u_def ex_w_def)

lemma ex_full_maybeOverflow: "maybeOverflow ex_X ex_chunk_full = Inr (ex_chunk3, ex_calls)"
  by (simp add: maybeOverflow_cases ex_full_select ex_full_doOverflow ex_full_fields ex_md_def)

lemma ex3_run: "insert_voxel ex_X ex_chunk2 ex_w ex_key = Inr (True, ex_chunk3, ex_w, ex_calls)"
proof -
  have io: "insertOverflow ex_X ex_chunk2 ex_w ex_key = Inr (True, ex_chunk3, ex_calls)"
    using ex_full_maybeOverflow
    by (simp add: insertOverflow_def Overflow_insert_def Let_def ex_chunk2_eq ex0_fields
        ex_X_fields ex_dirs_eval ex_ck_def ex_md_def ex_w_def ex_bucket1_def ex_bucket2_def
        ex_chunk_full_def ex_u_def)
  show ?thesis
    using io
    by (simp add: insert_voxel_def Let_def ex_key_def ex_w_def ex_X_fields ex_dirs_eval
        ex_chunk2_eq ex0_fields)
qed

lemma ex_children_distinct:
  "d \<noteq> Dir0 \<Longrightarrow> dxyz (ex_getStep ex_ck d) \<noteq> dxyz (ex_getStep ex_ck Dir0)"
  by (cases d) (simp_all add: dxyz_def ex_getStep_def ex_descend_def ex_ck_def)


theorem doOverflow_detaches_bucket_witness:
  "m_overflows ex_chunk_full Dir0 = Some ex_bucket2 \<and>
   (\<exists>c'. doOverflow ex_X ex_chunk_full Dir0 = Inr (c', ex_calls) \<and>
      m_overflows c' Dir0 = None \<and> m_overflowCount c' = 0 \<and>
      m_overflows c' Dir1 = m_overflows ex_chunk_full Dir1 \<and>
      m_gridBlock c' = [''t''])"
  using doOverflow_detaches_bucket [OF ex_full_fields(1), of ex_X] ex_full_fields(1)
  by (auto simp: ex_full_fields ex_calls_def ex_bucket2_def ex_X_fields ex_u_def ex_w_def)

theorem Chunk_ctor_overflow_iff_no_points_witness:
  "ex_h5 (dxyz (ex_getStep ex_ck Dir0)) = Some 5 \<and>
   m_overflows (Chunk_ctor ex_X ex_md ex_ck ex_h5 :: (pt, pt \<times> pt, string, unit) Chunk) Dir0 = None \<and>
   ex_h5 (dxyz (ex_getStep ex_ck Dir1)) = None \<and>
   m_overflows (Chunk_ctor ex_X ex_md ex_ck ex_h5 :: (pt, pt \<times> pt, string, unit) Chunk) Dir1 \<noteq> None"
  using Chunk_ctor_overflow_iff_no_points [of ex_X ex_md ex_ck ex_h5 Dir0]
    Chunk_ctor_overflow_iff_no_points [of ex_X ex_md ex_ck ex_h5 Dir1]
    ex_children_distinct [of Dir1]
  by (simp add: ex_h5_def ex_X_fields hierarchy_get_def)

theorem Chunk_ctor_zero_count_counterexample:
  "ex_h0 (dxyz (childAt (Chunk_ctor ex_X ex_md ex_ck ex_h0
                   :: (pt, pt \<times> pt, string, unit) Chunk) Dir0)) \<noteq> None \<and>
   m_overflows (Chunk_ctor ex_X ex_md ex_ck ex_h0 :: (pt, pt \<times> pt, string, unit) Chunk) Dir0
     \<noteq> None"
  by (simp add: Chunk_ctor_overflows ex_h0_def hierarchy_get_def ex_X_fields)

theorem Chunk_ctor_grid_fixed_span_witness:
  "span ex_md < 2 ^ 32 \<and> length (m_grid ex_chunk0) = unat (span ex_md) * unat (span ex_md) \<and>
   length (m_grid ex_chunk0) = 4 \<and>
   length (m_grid (Chunk_ctor ex_X ex_md (ex_getStep ex_ck Dir7) ex_h5
             :: (pt, pt \<times> pt, string, unit) Chunk)) = 4 \<and>
   m_grid ex_chunk0 = [Map.empty, Map.empty, Map.empty, Map.empty]"
proof -
  have small: "span ex_md < 2 ^ 32" by (simp add: ex_md_def)
  have four: "unat (span ex_md) * unat (span ex_md) = 4" by (simp add: ex_md_def)
  note t = Chunk_ctor_grid_fixed_span [of ex_X ex_md ex_ck Map.empty "ex_getStep ex_ck Dir7" ex_h5,
      where ?'d = string]
  from t small have a: "length (m_grid ex_chunk0) = unat (span ex_md) * unat (span ex_md)"
    unfolding ex_chunk0_def by blast
  from t have b: "length (m_grid (Chunk_ctor ex_X ex_md (ex_getStep ex_ck Dir7) ex_h5
             :: (pt, pt \<times> pt, string, unit) Chunk)) = length (m_grid ex_chunk0)"
    unfolding ex_chunk0_def by blast
  from t have c: "\<forall>tube \<in> set (m_grid ex_chunk0). tube = Map.empty"
    unfolding ex_chunk0_def by blast
  from a four have "length (m_grid ex_chunk0) = 4" by simp
  with c have "m_grid ex_chunk0 = [Map.empty, Map.empty, Map.empty, Map.empty]"
    by (simp add: length_Suc_conv numeral_eq_Suc) auto
  with small a b four show ?thesis by simp
qed

theorem Chunk_ctor_grid_depth_counterexample:
  "length (m_grid ex_chunk0) \<noteq>
     spec_span (unat (ck_depth (m_chunkKey ex_chunk0))) 1 2 *
     spec_span (unat (ck_depth (m_chunkKey ex_chunk0))) 1 2"
  by (simp add: ex0_fields spec_span_def ex_ck_def)

lemma ex1_fields:
  "m_span ex_chunk1 = 2" "m_gridBlock ex_chunk1 = [''u'']"
  "m_grid ex_chunk1 = [[0 \<mapsto> \<lparr>gv_point = (3, 3, 3), gv_slot = 0\<rparr>],
                       Map.empty, Map.empty, Map.empty]"
  by (simp_all add: ex_chunk1_eq ex0_fields)

lemma ex3_fields:
  "m_grid ex_chunk3 = [[0 \<mapsto> \<lparr>gv_point = (2, 2, 2), gv_slot = 0\<rparr>],
                       Map.empty, Map.empty, Map.empty]"
  "m_gridBlock ex_chunk3 = [''t'']" "m_overflows ex_chunk3 Dir0 = None"
  "m_chunkKey ex_chunk3 = ex_ck" "m_metadata ex_chunk3 = ex_md"
  by (simp_all add: ex_chunk3_def ex_chunk_full_def ex_chunk2_eq ex0_fields)

theorem insert_keeps_nearest_witness:
  "m_span ex_chunk1 \<noteq> 0 \<and>
   unat ((pos_y (key_position ex_key) mod m_span ex_chunk1) * m_span ex_chunk1
         + (pos_x (key_position ex_key) mod m_span ex_chunk1)) < length (m_grid ex_chunk1) \<and>
   (m_grid ex_chunk1 ! 0) 0 = Some \<lparr>gv_point = (3, 3, 3), gv_slot = 0\<rparr> \<and>
   (0::nat) < length (m_gridBlock ex_chunk1) \<and>
   ex_sqDist3d (point ex_t) (ex_mid (key_bounds ex_key))
     < ex_sqDist3d (3, 3, 3) (ex_mid (key_bounds ex_key)) \<and>
   (\<exists>flag c2 calls g.
      insert_voxel ex_X ex_chunk1 ex_t ex_key = Inr (flag, c2, ex_u, calls) \<and>
      (m_grid c2 ! 0) 0 = Some g \<and>
      \<lparr>point = gv_point g, data = m_gridBlock c2 ! gv_slot g\<rparr> = ex_t)"
proof -
  have i0: "unat ((pos_y (key_position ex_key) mod m_span ex_chunk1) * m_span ex_chunk1
         + (pos_x (key_position ex_key) mod m_span ex_chunk1)) = 0"
    by (simp add: ex_key_def ex1_fields)
  have z0: "(ucast (pos_z (key_position ex_key)) :: 32 word) = 0"
    by (simp add: ex_key_def)
  have span: "m_span ex_chunk1 \<noteq> 0" by (simp add: ex1_fields)
  have rng: "unat ((pos_y (key_position ex_key) mod m_span ex_chunk1) * m_span ex_chunk1
         + (pos_x (key_position ex_key) mod m_span ex_chunk1)) < length (m_grid ex_chunk1)"
    unfolding i0 by (simp add: ex1_fields)
  have res: "(m_grid ex_chunk1 !
               unat ((pos_y (key_position ex_key) mod m_span ex_chunk1) * m_span ex_chunk1
                     + (pos_x (key_position ex_key) mod m_span ex_chunk1)))
             (ucast (pos_z (key_position ex_key))) = Some \<lparr>gv_point = (3, 3, 3), gv_slot = 0\<rparr>"
    unfolding i0 z0 by (simp add: ex1_fields)
  have slot: "gv_slot \<lparr>gv_point = (3::int, 3::int, 3::int), gv_slot = 0\<rparr>
                < length (m_gridBlock ex_chunk1)"
    by (simp add: ex1_fields)
  have closer: "ex_sqDist3d (point ex_t) (ex_mid (key_bounds ex_key))
     < ex_sqDist3d (3, 3, 3) (ex_mid (key_bounds ex_key))"
    by (simp add: ex_t_def ex_key_def ex_dirs_eval)
  have closer': "sqDist3d ex_X (point ex_t) (mid ex_X (key_bounds ex_key))
      < sqDist3d ex_X (point \<lparr>point = gv_point \<lparr>gv_point = (3::int, 3::int, 3::int), gv_slot = 0\<rparr>,
                             data = m_gridBlock ex_chunk1 ! gv_slot \<lparr>gv_point = (3::int, 3::int, 3::int), gv_slot = 0\<rparr>\<rparr>)
          (mid ex_X (key_bounds ex_key))"
    using closer by (simp add: ex_X_fields)
  note t = insert_keeps_nearest [OF span rng res slot, of ex_X ex_t, unfolded i0 z0 if_P [OF closer']]
  from t obtain flag c2 calls where
    run: "insert_voxel ex_X ex_chunk1 ex_t ex_key =
            Inr (flag, c2, \<lparr>point = gv_point \<lparr>gv_point = (3::int, 3::int, 3::int), gv_slot = 0\<rparr>,
                            data = m_gridBlock ex_chunk1 ! gv_slot \<lparr>gv_point = (3::int, 3::int, 3::int), gv_slot = 0\<rparr>\<rparr>,
                 calls)"
    and g2: "m_grid c2 = m_grid (ex_chunk1\<lparr>m_grid := (m_grid ex_chunk1)
                 [0 := (m_grid ex_chunk1 ! 0)(0 \<mapsto> \<lparr>gv_point = (3, 3, 3), gv_slot = 0\<rparr>
                                                      \<lparr>gv_point := point ex_t\<rparr>)],
               m_gridBlock := (m_gridBlock ex_chunk1)
                 [gv_slot \<lparr>gv_point = (3::int, 3::int, 3::int), gv_slot = 0\<rparr> := data ex_t]\<rparr>)"
    and b2: "m_gridBlock c2 = m_gridBlock (ex_chunk1\<lparr>m_grid := (m_grid ex_chunk1)
                 [0 := (m_grid ex_chunk1 ! 0)(0 \<mapsto> \<lparr>gv_point = (3, 3, 3), gv_slot = 0\<rparr>
                                                      \<lparr>gv_point := point ex_t\<rparr>)],
               m_gridBlock := (m_gridBlock ex_chunk1)
                 [gv_slot \<lparr>gv_point = (3::int, 3::int, 3::int), gv_slot = 0\<rparr> := data ex_t]\<rparr>)"
    by blast
  from run have run': "insert_voxel ex_X ex_chunk1 ex_t ex_key = Inr (flag, c2, ex_u, calls)"
    by (simp add: ex1_fields ex_u_def)
  from g2 have cell: "(m_grid c2 ! 0) 0 = Some \<lparr>gv_point = (2, 2, 2), gv_slot = 0\<rparr>"
    by (simp add: ex1_fields ex_t_def)
  from b2 have blk: "m_gridBlock c2 = [''t'']" by (simp add: ex1_fields ex_t_def)
  from run' cell blk have "\<exists>flag c2 calls g.
      insert_voxel ex_X ex_chunk1 ex_t ex_key = Inr (flag, c2, ex_u, calls) \<and>
      (m_grid c2 ! 0) 0 = Some g \<and>
      \<lparr>point = gv_point g, data = m_gridBlock c2 ! gv_slot g\<rparr> = ex_t"
    by (intro exI [of _ flag] exI [of _ c2] exI [of _ calls]
        exI [of _ "\<lparr>gv_point = (2, 2, 2), gv_slot = 0\<rparr>"]) (simp add: ex_t_def)
  with span rng res slot closer show ?thesis by (simp add: i0 z0)
qed

text \<open>
  The resident \<open>ex_t\<close> is at the midpoint of the key's bounds. The incoming \<open>ex_w\<close> is nearer
  to the midpoint of the chunk's bounds than \<open>ex_t\<close> is, and yet \<open>ex_t\<close> stays in the cell and
  \<open>ex_w\<close> goes on.
\<close>

theorem insert_chunk_midpoint_counterexample:
  "(m_grid ex_chunk2 ! 0) 0 = Some \<lparr>gv_point = (2, 2, 2), gv_slot = 0\<rparr> \<and>
   m_gridBlock ex_chunk2 = [''t''] \<and>
   ex_sqDist3d (point ex_w) (ex_mid (ck_bounds (m_chunkKey ex_chunk2)))
     < ex_sqDist3d (2, 2, 2) (ex_mid (ck_bounds (m_chunkKey ex_chunk2))) \<and>
   insert_voxel ex_X ex_chunk2 ex_w ex_key = Inr (True, ex_chunk3, ex_w, ex_calls) \<and>
   (m_grid ex_chunk3 ! 0) 0 = Some \<lparr>gv_point = (2, 2, 2), gv_slot = 0\<rparr> \<and>
   m_gridBlock ex_chunk3 = [''t'']"
proof -
  have a: "(m_grid ex_chunk2 ! 0) 0 = Some \<lparr>gv_point = (2, 2, 2), gv_slot = 0\<rparr>"
    "m_gridBlock ex_chunk2 = [''t'']"
    by (simp_all add: ex_chunk2_eq)
  have b: "ex_sqDist3d (point ex_w) (ex_mid (ck_bounds (m_chunkKey ex_chunk2)))
     < ex_sqDist3d (2, 2, 2) (ex_mid (ck_bounds (m_chunkKey ex_chunk2)))"
    by (simp add: ex_chunk2_eq ex0_fields ex_ck_def ex_w_def ex_dirs_eval)
  have c: "(m_grid ex_chunk3 ! 0) 0 = Some \<lparr>gv_point = (2, 2, 2), gv_slot = 0\<rparr>"
    "m_gridBlock ex_chunk3 = [''t'']"
    by (simp_all add: ex3_fields)
  from a b c ex3_run show ?thesis by blast
qed

theorem insertOverflow_routes_witness:
  "\<not> ck_depth (m_chunkKey ex_chunk2) < getSharedDepth ex_X (m_metadata ex_chunk2) \<and>
   m_overflows ex_chunk2 (getDirection ex_X (mid ex_X (ck_bounds (m_chunkKey ex_chunk2)))
                            (point ex_w)) = Some ex_bucket1 \<and>
   minNodeSize (internal (m_metadata ex_chunk2)) \<le> m_overflowCount ex_chunk2 + 1 \<and>
   insertOverflow ex_X ex_chunk2 ex_w ex_key = Inr (True, ex_chunk3, ex_calls) \<and>
   ck_depth (m_chunkKey ex_chunk2)
     < getSharedDepth (ex_X\<lparr>getSharedDepth := (\<lambda>m. 1)\<rparr>) (m_metadata ex_chunk2) \<and>
   insertOverflow (ex_X\<lparr>getSharedDepth := (\<lambda>m. 1)\<rparr>) ex_chunk2 ex_w ex_key
     = Inr (False, ex_chunk2, []) \<and>
   m_overflows ex_chunk3 (getDirection ex_X (mid ex_X (ck_bounds (m_chunkKey ex_chunk3)))
                            (point ex_w)) = None \<and>
   insertOverflow ex_X ex_chunk3 ex_w ex_key = Inr (False, ex_chunk3, [])"
proof -
  have dir2: "getDirection ex_X (mid ex_X (ck_bounds (m_chunkKey ex_chunk2))) (point ex_w) = Dir0"
    by (simp add: ex_X_fields ex_chunk2_eq ex0_fields ex_ck_def ex_w_def ex_dirs_eval)
  have dir3: "getDirection ex_X (mid ex_X (ck_bounds (m_chunkKey ex_chunk3))) (point ex_w) = Dir0"
    by (simp add: ex_X_fields ex3_fields ex_ck_def ex_w_def ex_dirs_eval)
  have deep: "\<not> ck_depth (m_chunkKey ex_chunk2) < getSharedDepth ex_X (m_metadata ex_chunk2)"
    by (simp add: ex_X_fields)
  have shallow: "ck_depth (m_chunkKey ex_chunk2)
     < getSharedDepth (ex_X\<lparr>getSharedDepth := (\<lambda>m. 1)\<rparr>) (m_metadata ex_chunk2)"
    by (simp add: ex_chunk2_eq ex0_fields ex_ck_def)
  have present: "m_overflows ex_chunk2 Dir0 = Some ex_bucket1"
    by (simp add: ex_chunk2_eq)
  have absent: "m_overflows ex_chunk3 Dir0 = None" by (simp add: ex3_fields)
  have count: "minNodeSize (internal (m_metadata ex_chunk2)) \<le> m_overflowCount ex_chunk2 + 1"
    by (simp add: ex_chunk2_eq ex0_fields ex_md_def)
  have c1: "ex_chunk2\<lparr>m_overflows := (m_overflows ex_chunk2)
                (Dir0 \<mapsto> ex_bucket1\<lparr>block := block ex_bucket1 @ [data ex_w],
                                      list := list ex_bucket1 @ [\<lparr>voxel = ex_w, key = ex_key\<rparr>]\<rparr>),
              m_overflowCount := m_overflowCount ex_chunk2 + 1\<rparr> = ex_chunk_full"
    by (simp add: ex_chunk_full_def ex_bucket1_def ex_bucket2_def ex_w_def ex_chunk2_eq)
  from insertOverflow_routes [of ex_chunk2 ex_X ex_w ex_key] deep present count
  have a: "insertOverflow ex_X ex_chunk2 ex_w ex_key = Inr (True, ex_chunk3, ex_calls)"
    by (simp add: dir2 Let_def c1 ex_full_maybeOverflow)
  from insertOverflow_routes [of ex_chunk2 "ex_X\<lparr>getSharedDepth := (\<lambda>m. 1)\<rparr>" ex_w ex_key] shallow
  have b: "insertOverflow (ex_X\<lparr>getSharedDepth := (\<lambda>m. 1)\<rparr>) ex_chunk2 ex_w ex_key
     = Inr (False, ex_chunk2, [])"
    by blast
  from insertOverflow_routes [of ex_chunk3 ex_X ex_w ex_key] absent
  have c: "insertOverflow ex_X ex_chunk3 ex_w ex_key = Inr (False, ex_chunk3, [])"
    by (simp add: dir3)
  from a b c deep shallow present absent count show ?thesis
    by (simp add: dir2 dir3)
qed

end
